theory Spec2Isabelle
  imports Complex_Main
begin

section \<open>Dynamic komi strategies of the UCT engine (uct/dynkomi.c)\<close>

text \<open>
  The embedding follows \<^verbatim>\<open>src/uct/dynkomi.c\<close> function by function.
  Conventions of the model:
  \<^item> a C \<^verbatim>\<open>float\<close> is a real number: rounding, infinities and NaN are not
    modelled. A floating-point division whose divisor is zero has no real
    result; it is the value \<open>None\<close> of \<open>float_div\<close>, and a function that
    performs such a division returns \<open>None\<close> from there on;
  \<^item> a C \<^verbatim>\<open>int\<close> is an \<open>int\<close>; no arithmetic of the file overflows on move
    counts and option values of a game;
  \<^item> the \<^verbatim>\<open>fprintf\<close> calls under \<^verbatim>\<open>DEBUGL(3)\<close> write a log line and change
    nothing; they are left out. The back pointer \<^verbatim>\<open>d->uct\<close> and the
    destructor \<^verbatim>\<open>d->done\<close> (always \<^verbatim>\<open>generic_done\<close>) are not represented;
  \<^item> a function pointer is a tag naming the function of this file it points
    to, \<open>None\<close> for \<^verbatim>\<open>NULL\<close>;
  \<^item> \<^verbatim>\<open>exit(1)\<close> after an error message and a dereferenced \<^verbatim>\<open>NULL\<close> are values
    of the type \<open>error\<close>;
  \<^item> names are those of the sources, but for three fields: \<^verbatim>\<open>value\<close> of
    \<^verbatim>\<open>struct move_stats\<close> is \<open>value_s\<close> and \<^verbatim>\<open>value\<close> of
    \<^verbatim>\<open>struct uct_dynkomi\<close> is \<open>value_d\<close> (\<open>value\<close> is a keyword), and
    \<^verbatim>\<open>moves\<close> of \<^verbatim>\<open>struct dynkomi_linear\<close> is \<open>lin_moves\<close> (\<open>moves\<close> is
    the field of the board).
\<close>

subsection \<open>Collaborators: stones, boards, trees, statistics\<close>

datatype stone = S_BLACK | S_WHITE

text \<open>
  Modelled from the spec: \<^verbatim>\<open>stone_other\<close> comes from a header that is not part
  of the sources at hand; the spec calls it "the color opposite".
\<close>

fun stone_other :: "stone \<Rightarrow> stone" where
  "stone_other S_BLACK = S_WHITE"
| "stone_other S_WHITE = S_BLACK"

text \<open>
  Modelled from the spec: \<^verbatim>\<open>komi_by_color\<close> comes from a header that is not
  part of the sources at hand. It is the spec's Color-Frame Normalizer: the canonical
  frame is the first player's (black), the second player's frame has the
  opposite sign, and the same function converts back.
\<close>

definition komi_by_color :: "real \<Rightarrow> stone \<Rightarrow> real" where
  "komi_by_color komi color = (if color = S_BLACK then komi else - komi)"

text \<open>The fields of \<^verbatim>\<open>struct board\<close> that the file reads.\<close>

record board =
  moves :: int
  board_size :: int
  flen :: int

text \<open>The fields of \<^verbatim>\<open>struct tree\<close> that the file reads.\<close>

record tree =
  extra_komi :: real
  root_color :: stone

text \<open>\<^verbatim>\<open>struct move_stats\<close>: a sample count and a running mean.\<close>

record move_stats =
  playouts :: int
  value_s :: real

datatype permove_fn = Linear_permove | Adaptive_permove

datatype persim_fn = Linear_persim | Adaptive_persim

text \<open>
  \<^verbatim>\<open>struct uct_dynkomi\<close>; the type parameter is the type of what \<^verbatim>\<open>data\<close>
  points to.
\<close>

record 'a uct_dynkomi =
  permove :: "permove_fn option"
  persim :: "persim_fn option"
  data :: 'a
  score :: move_stats
  value_d :: move_stats

datatype error =
    No_arguments_accepted
  | Invalid_argument string
  | Invalid_indicator string
  | Invalid_adapter string
  | Null_dereference

definition float_div :: "real \<Rightarrow> real \<Rightarrow> real option" where
  "float_div x y = (if y = 0 then None else Some (x / y))"

text \<open>\<^verbatim>\<open>round\<close> of \<^verbatim>\<open>math.h\<close>, converted to \<^verbatim>\<open>int\<close>: halves go away from zero.\<close>

definition c_round :: "real \<Rightarrow> int" where
  "c_round x = (if 0 \<le> x then \<lfloor>x + 1 / 2\<rfloor> else \<lceil>x - 1 / 2\<rceil>)"

subsection \<open>NONE strategy\<close>

definition zero_stats :: move_stats where
  "zero_stats = \<lparr>playouts = 0, value_s = 0\<rparr>"

definition uct_dynkomi_init_none :: "string option \<Rightarrow> board \<Rightarrow> error + unit uct_dynkomi" where
  "uct_dynkomi_init_none arg b =
    (let d = \<lparr>permove = None, persim = None, data = (),
              score = zero_stats, value_d = zero_stats\<rparr>
     in if arg \<noteq> None then Inl No_arguments_accepted else Inr d)"

subsection \<open>LINEAR strategy\<close>

record dynkomi_linear =
  handicap_value :: int
  lin_moves :: int
  rootbased :: bool

text \<open>
  \<^verbatim>\<open>board_effective_handicap\<close>, a query of the board, is not part of the
  sources at hand: it is the parameter \<open>beh\<close>.
\<close>

definition linear_permove ::
  "(board \<Rightarrow> int \<Rightarrow> real) \<Rightarrow> dynkomi_linear uct_dynkomi \<Rightarrow> board \<Rightarrow> tree \<Rightarrow> real option" where
  "linear_permove beh d b tr =
    (let l = data d in
     if lin_moves l \<le> moves b then Some 0
     else
       let base_komi = beh b (handicap_value l)
       in float_div (base_komi * real_of_int (lin_moves l - moves b)) (real_of_int (lin_moves l)))"

definition linear_persim ::
  "(board \<Rightarrow> int \<Rightarrow> real) \<Rightarrow> dynkomi_linear uct_dynkomi \<Rightarrow> board \<Rightarrow> tree \<Rightarrow> 'n \<Rightarrow> real option" where
  "linear_persim beh d b tr node =
    (let l = data d in
     if rootbased l then Some (extra_komi tr)
     else linear_permove beh d b tr)"

subsection \<open>ADAPTIVE strategy\<close>

datatype indicator_fn = Komi_by_score | Komi_by_value

datatype adapter_fn = Adapter_sigmoid | Adapter_linear

record dynkomi_adaptive =
  lead_moves :: int
  max_losing_komi :: real
  indicator :: indicator_fn
  zone_red :: real
  zone_green :: real
  score_step :: int
  score_step_byavg :: real
  use_komi_ratchet :: bool
  komi_ratchet_maxage :: int
  komi_ratchet_age :: int
  komi_ratchet :: real
  adapter :: adapter_fn
  adapt_base :: real
  adapt_phase :: real
  adapt_rate :: real
  adapt_aport :: bool
  adapt_moves :: int
  adapt_dir :: real

definition TRUSTWORTHY_KOMI_PLAYOUTS :: int where
  "TRUSTWORTHY_KOMI_PLAYOUTS = 200"

text \<open>
  \<^verbatim>\<open>board_estimated_moves_left\<close>, a query of the board, is not part of the
  sources at hand: it is the parameter \<open>eml\<close>.
\<close>

definition adapter_sigmoid ::
  "(board \<Rightarrow> int) \<Rightarrow> dynkomi_adaptive uct_dynkomi \<Rightarrow> board \<Rightarrow> real option" where
  "adapter_sigmoid eml d b =
    (let a = data d;
         game_portion =
           (if \<not> adapt_aport a then
              let total_moves = moves b + 2 * eml b
              in float_div (real_of_int (moves b)) (real_of_int total_moves)
            else
              let brsize = board_size b - 2
              in map_option (\<lambda>q. 1 - q)
                   (float_div (real_of_int (flen b)) (real_of_int (brsize * brsize))))
     in case game_portion of
          None \<Rightarrow> None
        | Some gp \<Rightarrow>
            let l = gp - adapt_phase a
            in float_div 1 (1 + exp (- adapt_rate a * l)))"

definition adapter_linear :: "dynkomi_adaptive uct_dynkomi \<Rightarrow> board \<Rightarrow> real option" where
  "adapter_linear d b =
    (let a = data d in
     if adapt_moves a < moves b then Some 0
     else if adapt_dir a < 0 then
       map_option (\<lambda>q. 1 - q)
         (float_div ((- adapt_dir a) * real_of_int (moves b)) (real_of_int (adapt_moves a)))
     else float_div (adapt_dir a * real_of_int (moves b)) (real_of_int (adapt_moves a)))"

text \<open>The call \<^verbatim>\<open>a->adapter(d, b)\<close>.\<close>

fun call_adapter ::
  "adapter_fn \<Rightarrow> (board \<Rightarrow> int) \<Rightarrow> dynkomi_adaptive uct_dynkomi \<Rightarrow> board \<Rightarrow> real option" where
  "call_adapter Adapter_sigmoid eml d b = adapter_sigmoid eml d b"
| "call_adapter Adapter_linear eml d b = adapter_linear d b"

definition komi_by_score ::
  "(board \<Rightarrow> int) \<Rightarrow> dynkomi_adaptive uct_dynkomi \<Rightarrow> board \<Rightarrow> tree \<Rightarrow> stone
    \<Rightarrow> real option \<times> dynkomi_adaptive uct_dynkomi" where
  "komi_by_score eml d b tr color =
    (let a = data d in
     if playouts (score d) < TRUSTWORTHY_KOMI_PLAYOUTS then (Some (extra_komi tr), d)
     else
       let score0 = score d;
           d1 = d\<lparr>score := (score d)\<lparr>playouts := 1\<rparr>\<rparr>
       in case call_adapter (adapter a) eml d1 b of
            None \<Rightarrow> (None, d1)
          | Some p0 \<Rightarrow>
              let p1 = adapt_base a + p0 * (1 - adapt_base a);
                  p = (if p1 > 9 / 10 then 9 / 10 else p1);
                  extra = extra_komi tr + p * value_s score0
              in (Some extra, d1))"

definition komi_by_value ::
  "dynkomi_adaptive uct_dynkomi \<Rightarrow> board \<Rightarrow> tree \<Rightarrow> stone
    \<Rightarrow> real \<times> dynkomi_adaptive uct_dynkomi" where
  "komi_by_value d b tr color =
    (let a = data d in
     if playouts (value_d d) < TRUSTWORTHY_KOMI_PLAYOUTS then (extra_komi tr, d)
     else
       let value0 = value_d d;
           d1 = d\<lparr>value_d := (value_d d)\<lparr>playouts := 1\<rparr>\<rparr>;
           v = (if color = S_WHITE then 1 - value_s value0 else value_s value0);
           extra = komi_by_color (extra_komi tr) color;
           (step, d2) =
             (if score_step_byavg a \<noteq> 0 then
                let score0 = score d1;
                    d' = d1\<lparr>score := (score d1)\<lparr>playouts := 1\<rparr>\<rparr>;
                    sv = (if color = S_WHITE then - value_s score0 else value_s score0)
                in (if 0 \<le> sv then c_round (sv * score_step_byavg a) else score_step a, d')
              else (score_step a, d1))
       in
         if v < zone_red a then
           let a1 = (if 0 < extra then a\<lparr>komi_ratchet := extra\<rparr> else a);
               extra1 = extra - real_of_int step
           in (komi_by_color extra1 color, d2\<lparr>data := a1\<rparr>)
         else if v < zone_green a then
           (komi_by_color extra color, d2)
         else
           let extra1 = extra + real_of_int step;
               a1 = (if 0 < komi_ratchet_maxage a \<and> komi_ratchet_maxage a < komi_ratchet_age a
                     then a\<lparr>komi_ratchet := 1000, komi_ratchet_age := 0\<rparr> else a)
           in
             if use_komi_ratchet a1 \<and> komi_ratchet a1 \<le> extra1 then
               (komi_by_color (komi_ratchet a1 - 1) color,
                d2\<lparr>data := a1\<lparr>komi_ratchet_age := komi_ratchet_age a1 + 1\<rparr>\<rparr>)
             else (komi_by_color extra1 color, d2\<lparr>data := a1\<rparr>))"

text \<open>The call \<^verbatim>\<open>a->indicator(d, b, tree, color)\<close>.\<close>

fun call_indicator ::
  "indicator_fn \<Rightarrow> (board \<Rightarrow> int) \<Rightarrow> dynkomi_adaptive uct_dynkomi \<Rightarrow> board \<Rightarrow> tree \<Rightarrow> stone
    \<Rightarrow> real option \<times> dynkomi_adaptive uct_dynkomi" where
  "call_indicator Komi_by_score eml d b tr color = komi_by_score eml d b tr color"
| "call_indicator Komi_by_value eml d b tr color =
     (let (k, d') = komi_by_value d b tr color in (Some k, d'))"

definition adaptive_permove ::
  "(board \<Rightarrow> int \<Rightarrow> real) \<Rightarrow> (board \<Rightarrow> int) \<Rightarrow> dynkomi_adaptive uct_dynkomi \<Rightarrow> board \<Rightarrow> tree
    \<Rightarrow> real option \<times> dynkomi_adaptive uct_dynkomi" where
  "adaptive_permove beh eml d b tr =
    (let a = data d in
     if moves b \<le> lead_moves a then (Some (beh b 7), d)
     else
       let color = stone_other (root_color tr);
           min_komi = komi_by_color (- max_losing_komi a) color;
           (komi, d') = call_indicator (indicator a) eml d b tr color
       in (map_option
             (\<lambda>k. if 0 < komi_by_color (k - min_komi) color then k else min_komi) komi,
           d'))"

definition adaptive_persim ::
  "dynkomi_adaptive uct_dynkomi \<Rightarrow> board \<Rightarrow> tree \<Rightarrow> 'n \<Rightarrow> real" where
  "adaptive_persim d b tr node = extra_komi tr"

subsection \<open>Option strings\<close>

text \<open>
  The C library is not part of the sources at hand. \<^verbatim>\<open>strcasecmp\<close> is only
  ever tested against zero, on ASCII option names; \<^verbatim>\<open>atoi\<close> and \<^verbatim>\<open>atof\<close> are
  the parameters \<open>atoi\<close> and \<open>atof\<close>.
\<close>

definition c_tolower :: "char \<Rightarrow> char" where
  "c_tolower c =
    (let n = (of_char c :: nat) in if 65 \<le> n \<and> n \<le> 90 then char_of (n + 32) else c)"

definition strcasecmp_is0 :: "string \<Rightarrow> string \<Rightarrow> bool" where
  "strcasecmp_is0 s t = (map c_tolower s = map c_tolower t)"

text \<open>
  \<^verbatim>\<open>optval = strchr(optspec, '='); if (optval) *optval++ = 0;\<close> cuts the token
  at its first \<^verbatim>\<open>=\<close>.
\<close>

definition optname_of :: "string \<Rightarrow> string" where
  "optname_of optspec = takeWhile (\<lambda>c. c \<noteq> CHR ''='') optspec"

definition optval_of :: "string \<Rightarrow> string option" where
  "optval_of optspec =
    (if CHR ''='' \<in> set optspec
     then Some (tl (dropWhile (\<lambda>c. c \<noteq> CHR ''='') optspec)) else None)"

text \<open>
  The loop \<^verbatim>\<open>while (*next)\<close> of both constructors: the token runs up to the next
  \<^verbatim>\<open>:\<close>, which is skipped; \<open>f\<close> is the body of the loop on one token, and
  the first error ends the run.
\<close>

function parse_options :: "('s \<Rightarrow> string \<Rightarrow> error + 's) \<Rightarrow> string \<Rightarrow> 's \<Rightarrow> error + 's" where
  "parse_options f nxt s =
    (if nxt = [] then Inr s
     else
       (case f s (takeWhile (\<lambda>c. c \<noteq> CHR '':'') nxt) of
          Inl e \<Rightarrow> Inl e
        | Inr s' \<Rightarrow> parse_options f (drop 1 (dropWhile (\<lambda>c. c \<noteq> CHR '':'') nxt)) s'))"
  by pat_completeness auto
termination
proof (relation "measure (\<lambda>(f, nxt, s). length nxt)")
  show "wf (measure (\<lambda>(f :: 's \<Rightarrow> string \<Rightarrow> error + 's, nxt :: string, s :: 's). length nxt))"
    by simp
next
  fix f :: "'s \<Rightarrow> string \<Rightarrow> error + 's" and nxt :: string and s x2 :: 's
  assume "nxt \<noteq> []"
  moreover have "length (dropWhile (\<lambda>c. c \<noteq> CHR '':'') nxt) \<le> length nxt"
    by (rule length_dropWhile_le)
  ultimately show "((f, drop 1 (dropWhile (\<lambda>c. c \<noteq> CHR '':'') nxt), x2), (f, nxt, s))
      \<in> measure (\<lambda>(f, nxt, s). length nxt)"
    by (cases nxt) auto
qed

declare parse_options.simps [simp del]

definition linear_option :: "(string \<Rightarrow> int) \<Rightarrow> dynkomi_linear \<Rightarrow> string \<Rightarrow> error + dynkomi_linear" where
  "linear_option atoi l optspec =
    (let optname = optname_of optspec; optval = optval_of optspec in
     if strcasecmp_is0 optname ''moves'' \<and> optval \<noteq> None then
       Inr (l\<lparr>lin_moves := atoi (the optval)\<rparr>)
     else if strcasecmp_is0 optname ''handicap_value'' \<and> optval \<noteq> None then
       Inr (l\<lparr>handicap_value := atoi (the optval)\<rparr>)
     else if strcasecmp_is0 optname ''rootbased'' then
       Inr (l\<lparr>rootbased := (optval = None \<or> atoi (the optval) \<noteq> 0)\<rparr>)
     else Inl (Invalid_argument optname))"

definition uct_dynkomi_init_linear ::
  "(string \<Rightarrow> int) \<Rightarrow> string option \<Rightarrow> board \<Rightarrow> error + dynkomi_linear uct_dynkomi" where
  "uct_dynkomi_init_linear atoi arg b =
    (let l = \<lparr>handicap_value = 7,
              lin_moves = (if 19 \<le> board_size b - 2 then 200 else 0),
              rootbased = False\<rparr>;
         d = \<lparr>permove = Some Linear_permove, persim = Some Linear_persim, data = l,
              score = zero_stats, value_d = zero_stats\<rparr>
     in case arg of
          None \<Rightarrow> Inr d
        | Some str \<Rightarrow>
            (case parse_options (linear_option atoi) str l of
               Inl e \<Rightarrow> Inl e
             | Inr l' \<Rightarrow> Inr (d\<lparr>data := l'\<rparr>)))"

text \<open>
  The branch for \<^verbatim>\<open>indicator\<close> does not test \<^verbatim>\<open>optval\<close> before it passes it
  to \<^verbatim>\<open>strcasecmp\<close>.
\<close>

definition adaptive_option ::
  "(string \<Rightarrow> int) \<Rightarrow> (string \<Rightarrow> real) \<Rightarrow> dynkomi_adaptive \<Rightarrow> string \<Rightarrow> error + dynkomi_adaptive" where
  "adaptive_option atoi atof a optspec =
    (let optname = optname_of optspec; optval = optval_of optspec in
     if strcasecmp_is0 optname ''lead_moves'' \<and> optval \<noteq> None then
       Inr (a\<lparr>lead_moves := atoi (the optval)\<rparr>)
     else if strcasecmp_is0 optname ''max_losing_komi'' \<and> optval \<noteq> None then
       Inr (a\<lparr>max_losing_komi := atof (the optval)\<rparr>)
     else if strcasecmp_is0 optname ''indicator'' then
       (case optval of
          None \<Rightarrow> Inl Null_dereference
        | Some v \<Rightarrow>
            if strcasecmp_is0 v ''value'' then Inr (a\<lparr>indicator := Komi_by_value\<rparr>)
            else if strcasecmp_is0 v ''score'' then Inr (a\<lparr>indicator := Komi_by_score\<rparr>)
            else Inl (Invalid_indicator v))
     else if strcasecmp_is0 optname ''zone_red'' \<and> optval \<noteq> None then
       Inr (a\<lparr>zone_red := atof (the optval)\<rparr>)
     else if strcasecmp_is0 optname ''zone_green'' \<and> optval \<noteq> None then
       Inr (a\<lparr>zone_green := atof (the optval)\<rparr>)
     else if strcasecmp_is0 optname ''score_step'' \<and> optval \<noteq> None then
       Inr (a\<lparr>score_step := atoi (the optval)\<rparr>)
     else if strcasecmp_is0 optname ''score_step_byavg'' \<and> optval \<noteq> None then
       Inr (a\<lparr>score_step_byavg := atof (the optval)\<rparr>)
     else if strcasecmp_is0 optname ''use_komi_ratchet'' then
       Inr (a\<lparr>use_komi_ratchet := (optval = None \<or> atoi (the optval) \<noteq> 0)\<rparr>)
     else if strcasecmp_is0 optname ''komi_ratchet_age'' \<and> optval \<noteq> None then
       Inr (a\<lparr>komi_ratchet_maxage := atoi (the optval)\<rparr>)
     else if strcasecmp_is0 optname ''adapter'' \<and> optval \<noteq> None then
       (if strcasecmp_is0 (the optval) ''sigmoid'' then Inr (a\<lparr>adapter := Adapter_sigmoid\<rparr>)
        else if strcasecmp_is0 (the optval) ''linear'' then Inr (a\<lparr>adapter := Adapter_linear\<rparr>)
        else Inl (Invalid_adapter (the optval)))
     else if strcasecmp_is0 optname ''adapt_base'' \<and> optval \<noteq> None then
       Inr (a\<lparr>adapt_base := atof (the optval)\<rparr>)
     else if strcasecmp_is0 optname ''adapt_rate'' \<and> optval \<noteq> None then
       Inr (a\<lparr>adapt_rate := atof (the optval)\<rparr>)
     else if strcasecmp_is0 optname ''adapt_phase'' \<and> optval \<noteq> None then
       Inr (a\<lparr>adapt_phase := atof (the optval)\<rparr>)
     else if strcasecmp_is0 optname ''adapt_moves'' \<and> optval \<noteq> None then
       Inr (a\<lparr>adapt_moves := atoi (the optval)\<rparr>)
     else if strcasecmp_is0 optname ''adapt_aport'' then
       Inr (a\<lparr>adapt_aport := (optval = None \<or> atoi (the optval) \<noteq> 0)\<rparr>)
     else if strcasecmp_is0 optname ''adapt_dir'' \<and> optval \<noteq> None then
       Inr (a\<lparr>adapt_dir := atof (the optval)\<rparr>)
     else Inl (Invalid_argument optname))"

definition adaptive_defaults :: "board \<Rightarrow> dynkomi_adaptive" where
  "adaptive_defaults b =
    \<lparr>lead_moves = (if 19 \<le> board_size b - 2 then 20 else 4),
     max_losing_komi = 10,
     indicator = Komi_by_score,
     zone_red = 45 / 100,
     zone_green = 6 / 10,
     score_step = 2,
     score_step_byavg = 0,
     use_komi_ratchet = True,
     komi_ratchet_maxage = 0,
     komi_ratchet_age = 0,
     komi_ratchet = 1000,
     adapter = Adapter_sigmoid,
     adapt_base = 0,
     adapt_phase = 1 / 2,
     adapt_rate = 20,
     adapt_aport = False,
     adapt_moves = 200,
     adapt_dir = - (1 / 2)\<rparr>"

definition uct_dynkomi_init_adaptive ::
  "(string \<Rightarrow> int) \<Rightarrow> (string \<Rightarrow> real) \<Rightarrow> string option \<Rightarrow> board
    \<Rightarrow> error + dynkomi_adaptive uct_dynkomi" where
  "uct_dynkomi_init_adaptive atoi atof arg b =
    (let a = adaptive_defaults b;
         d = \<lparr>permove = Some Adaptive_permove, persim = Some Adaptive_persim, data = a,
              score = zero_stats, value_d = zero_stats\<rparr>
     in case arg of
          None \<Rightarrow> Inr d
        | Some str \<Rightarrow>
            (case parse_options (adaptive_option atoi atof) str a of
               Inl e \<Rightarrow> Inl e
             | Inr a' \<Rightarrow> Inr (d\<lparr>data := a'\<rparr>)))"

subsection \<open>The options of the configuration surface\<close>

text \<open>The tokens of an option string, in the order in which the loop reads them.\<close>

function option_tokens :: "string \<Rightarrow> string list" where
  "option_tokens nxt =
    (if nxt = [] then []
     else takeWhile (\<lambda>c. c \<noteq> CHR '':'') nxt
            # option_tokens (drop 1 (dropWhile (\<lambda>c. c \<noteq> CHR '':'') nxt)))"
  by pat_completeness auto
termination
proof (relation "measure length")
  show "wf (measure (length :: string \<Rightarrow> nat))" by simp
next
  fix nxt :: string
  assume "nxt \<noteq> []"
  moreover have "length (dropWhile (\<lambda>c. c \<noteq> CHR '':'') nxt) \<le> length nxt"
    by (rule length_dropWhile_le)
  ultimately show "(drop 1 (dropWhile (\<lambda>c. c \<noteq> CHR '':'') nxt), nxt) \<in> measure length"
    by (cases nxt) auto
qed

declare option_tokens.simps [simp del]

text \<open>
  The spec's table of recognized keys, read as a predicate on one token: the
  name is a key of the variant, and a key that takes a value has one. Only
  \<^verbatim>\<open>rootbased\<close>, \<^verbatim>\<open>use_komi_ratchet\<close> and \<^verbatim>\<open>adapt_aport\<close> may come without a
  value.
\<close>

definition spec_linear_option :: "string \<Rightarrow> bool" where
  "spec_linear_option optspec =
    (let optname = optname_of optspec; optval = optval_of optspec in
     (optval \<noteq> None \<and>
        (\<exists>key \<in> set [''moves'', ''handicap_value'']. strcasecmp_is0 optname key)) \<or>
     strcasecmp_is0 optname ''rootbased'')"

definition spec_adaptive_option :: "string \<Rightarrow> bool" where
  "spec_adaptive_option optspec =
    (let optname = optname_of optspec; optval = optval_of optspec in
     (optval \<noteq> None \<and>
        (\<exists>key \<in> set [''lead_moves'', ''max_losing_komi'', ''indicator'', ''zone_red'',
                      ''zone_green'', ''score_step'', ''score_step_byavg'',
                      ''komi_ratchet_age'', ''adapter'', ''adapt_base'', ''adapt_rate'',
                      ''adapt_phase'', ''adapt_moves'', ''adapt_dir''].
           strcasecmp_is0 optname key)) \<or>
     (\<exists>key \<in> set [''use_komi_ratchet'', ''adapt_aport'']. strcasecmp_is0 optname key))"

text \<open>The option \<^verbatim>\<open>indicator\<close> without a value.\<close>

definition bare_indicator :: "string \<Rightarrow> bool" where
  "bare_indicator optspec =
    (strcasecmp_is0 (optname_of optspec) ''indicator'' \<and> optval_of optspec = None)"

subsection \<open>Successive evaluations of the value indicator\<close>

text \<open>
  Between two calls of \<^verbatim>\<open>komi_by_value\<close> the search refills the two statistics
  and the engine sets the compensation of the tree; the strategy keeps its
  \<^verbatim>\<open>data\<close>, the ratchet with it. An \<open>evaluation\<close> is what one call finds.
\<close>

record evaluation =
  ev_value :: move_stats
  ev_score :: move_stats
  ev_board :: board
  ev_tree :: tree
  ev_color :: stone

definition value_eval ::
  "dynkomi_adaptive uct_dynkomi \<Rightarrow> evaluation \<Rightarrow> real \<times> dynkomi_adaptive uct_dynkomi" where
  "value_eval d e =
    komi_by_value (d\<lparr>score := ev_score e, value_d := ev_value e\<rparr>)
      (ev_board e) (ev_tree e) (ev_color e)"

text \<open>
  The calls in their order: the strategy before the call, what the call
  finds, what it returns, the strategy after it.
\<close>

record call =
  before :: "dynkomi_adaptive uct_dynkomi"
  found :: evaluation
  returned :: real
  after :: "dynkomi_adaptive uct_dynkomi"

fun value_trace :: "dynkomi_adaptive uct_dynkomi \<Rightarrow> evaluation list \<Rightarrow> call list" where
  "value_trace d [] = []"
| "value_trace d (e # es) =
     \<lparr>before = d, found = e, returned = fst (value_eval d e), after = snd (value_eval d e)\<rparr>
       # value_trace (snd (value_eval d e)) es"

fun value_run ::
  "dynkomi_adaptive uct_dynkomi \<Rightarrow> evaluation list \<Rightarrow> dynkomi_adaptive uct_dynkomi" where
  "value_run d [] = d"
| "value_run d (e # es) = value_run (snd (value_eval d e)) es"

text \<open>
  The tests of \<^verbatim>\<open>komi_by_value\<close>, by name: the mean from the side's point of
  view, the compensation in the side's frame, the step, the three zones, the
  expiry of the ratchet and the test that limits the compensation.
\<close>

definition pov_value :: "evaluation \<Rightarrow> real" where
  "pov_value e =
    (if ev_color e = S_WHITE then 1 - value_s (ev_value e) else value_s (ev_value e))"

definition side_komi :: "evaluation \<Rightarrow> real" where
  "side_komi e = komi_by_color (extra_komi (ev_tree e)) (ev_color e)"

definition eval_step :: "dynkomi_adaptive \<Rightarrow> evaluation \<Rightarrow> int" where
  "eval_step a e =
    (if score_step_byavg a \<noteq> 0 then
       let sv = (if ev_color e = S_WHITE then - value_s (ev_score e) else value_s (ev_score e))
       in if 0 \<le> sv then c_round (sv * score_step_byavg a) else score_step a
     else score_step a)"

definition trusted :: "evaluation \<Rightarrow> bool" where
  "trusted e = (\<not> playouts (ev_value e) < TRUSTWORTHY_KOMI_PLAYOUTS)"

definition red_zone :: "dynkomi_adaptive \<Rightarrow> evaluation \<Rightarrow> bool" where
  "red_zone a e = (trusted e \<and> pov_value e < zone_red a)"

definition green_zone :: "dynkomi_adaptive \<Rightarrow> evaluation \<Rightarrow> bool" where
  "green_zone a e = (trusted e \<and> \<not> pov_value e < zone_red a \<and> \<not> pov_value e < zone_green a)"

definition ratchet_expires :: "dynkomi_adaptive \<Rightarrow> bool" where
  "ratchet_expires a = (0 < komi_ratchet_maxage a \<and> komi_ratchet_maxage a < komi_ratchet_age a)"

definition after_expiry :: "dynkomi_adaptive \<Rightarrow> dynkomi_adaptive" where
  "after_expiry a =
    (if ratchet_expires a then a\<lparr>komi_ratchet := 1000, komi_ratchet_age := 0\<rparr> else a)"

definition ratchet_limited :: "dynkomi_adaptive \<Rightarrow> evaluation \<Rightarrow> bool" where
  "ratchet_limited a e =
    (green_zone a e \<and> use_komi_ratchet a \<and>
     komi_ratchet (after_expiry a) \<le> side_komi e + real_of_int (eval_step a e))"

text \<open>Two states of the strategy's data that differ in the ratchet at most.\<close>

definition same_settings :: "dynkomi_adaptive \<Rightarrow> dynkomi_adaptive \<Rightarrow> bool" where
  "same_settings a a' =
    (a' = a\<lparr>komi_ratchet := komi_ratchet a', komi_ratchet_age := komi_ratchet_age a'\<rparr>)"

subsection \<open>Scenarios\<close>

text \<open>
  Modelled from the spec: the board query "effective handicap compensation"
  (\<^verbatim>\<open>board_effective_handicap\<close>, not part of the sources at hand) "derives
  from handicap stone count"; in the spec's scenario three handicap stones of
  value 7 yield 21. Here it is taken on a board with \<open>n\<close> handicap stones.
\<close>

definition handicap_stones_komi :: "int \<Rightarrow> board \<Rightarrow> int \<Rightarrow> real" where
  "handicap_stones_komi n b first_move_value = real_of_int (n * first_move_value)"

text \<open>
  Modelled from the spec: the board query "estimated moves remaining"
  (\<^verbatim>\<open>board_estimated_moves_left\<close>, not part of the sources at hand), on a
  board where the estimate is sixty moves.
\<close>

definition sixty_moves_left :: "board \<Rightarrow> int" where
  "sixty_moves_left b = 60"

definition board19 :: board where
  "board19 = \<lparr>moves = 0, board_size = 21, flen = 361\<rparr>"

definition board9 :: board where
  "board9 = \<lparr>moves = 0, board_size = 11, flen = 81\<rparr>"

definition black_root :: tree where
  "black_root = \<lparr>extra_komi = 4, root_color = S_BLACK\<rparr>"

text \<open>The strategies as their constructors leave them on a 19x19 board.\<close>

definition linear19 :: "dynkomi_linear uct_dynkomi" where
  "linear19 =
    \<lparr>permove = Some Linear_permove, persim = Some Linear_persim,
     data = \<lparr>handicap_value = 7, lin_moves = 200, rootbased = False\<rparr>,
     score = zero_stats, value_d = zero_stats\<rparr>"

definition adaptive19 :: "dynkomi_adaptive uct_dynkomi" where
  "adaptive19 =
    \<lparr>permove = Some Adaptive_permove, persim = Some Adaptive_persim,
     data = adaptive_defaults board19,
     score = zero_stats, value_d = zero_stats\<rparr>"

text \<open>The value indicator selected, and a ratchet that ages out after one limited step.\<close>

definition adaptive19_value :: "dynkomi_adaptive uct_dynkomi" where
  "adaptive19_value = adaptive19\<lparr>data := (adaptive_defaults board19)\<lparr>indicator := Komi_by_value\<rparr>\<rparr>"

definition adaptive19_age1 :: "dynkomi_adaptive uct_dynkomi" where
  "adaptive19_age1 =
    adaptive19\<lparr>data := (adaptive_defaults board19)
      \<lparr>indicator := Komi_by_value, komi_ratchet_maxage := 1, komi_ratchet := 4\<rparr>\<rparr>"

text \<open>
  What a call finds: 200 samples with the mean in the red zone and in the
  green zone, the side being black, at a compensation of 4, 2 and 3.
\<close>

definition losing_at_4 :: evaluation where
  "losing_at_4 =
    \<lparr>ev_value = \<lparr>playouts = 200, value_s = 3 / 10\<rparr>, ev_score = zero_stats,
     ev_board = board19, ev_tree = \<lparr>extra_komi = 4, root_color = S_WHITE\<rparr>,
     ev_color = S_BLACK\<rparr>"

definition winning_at_2 :: evaluation where
  "winning_at_2 =
    \<lparr>ev_value = \<lparr>playouts = 200, value_s = 8 / 10\<rparr>, ev_score = zero_stats,
     ev_board = board19, ev_tree = \<lparr>extra_komi = 2, root_color = S_WHITE\<rparr>,
     ev_color = S_BLACK\<rparr>"

definition winning_at_3 :: evaluation where
  "winning_at_3 =
    \<lparr>ev_value = \<lparr>playouts = 200, value_s = 8 / 10\<rparr>, ev_score = zero_stats,
     ev_board = board19, ev_tree = \<lparr>extra_komi = 3, root_color = S_WHITE\<rparr>,
     ev_color = S_BLACK\<rparr>"

text \<open>
  The same at a compensation that the strategy did not return itself: the red
  zone at 10, the green zone at 5.
\<close>

definition losing_at_10 :: evaluation where
  "losing_at_10 =
    \<lparr>ev_value = \<lparr>playouts = 200, value_s = 3 / 10\<rparr>, ev_score = zero_stats,
     ev_board = board19, ev_tree = \<lparr>extra_komi = 10, root_color = S_WHITE\<rparr>,
     ev_color = S_BLACK\<rparr>"

definition winning_at_5 :: evaluation where
  "winning_at_5 =
    \<lparr>ev_value = \<lparr>playouts = 200, value_s = 8 / 10\<rparr>, ev_score = zero_stats,
     ev_board = board19, ev_tree = \<lparr>extra_komi = 5, root_color = S_WHITE\<rparr>,
     ev_color = S_BLACK\<rparr>"

text \<open>
  The C library's \<^verbatim>\<open>atoi\<close> on the option values of the scenarios: leading
  white space, a sign, decimal digits; the conversion stops at the first
  other character. It is \<^verbatim>\<open>strtol\<close> followed by the conversion to \<^verbatim>\<open>int\<close>,
  with a \<^verbatim>\<open>long\<close> of 64 bits: the value stops at the ends of the range of
  \<^verbatim>\<open>long\<close> and is then reduced to 32 bits, two's complement.
\<close>

definition is_space :: "char \<Rightarrow> bool" where
  "is_space c = (let n = (of_char c :: nat) in n = 32 \<or> (9 \<le> n \<and> n \<le> 13))"

definition is_digit :: "char \<Rightarrow> bool" where
  "is_digit c = (let n = (of_char c :: nat) in 48 \<le> n \<and> n \<le> 57)"

definition digit_of :: "char \<Rightarrow> int" where
  "digit_of c = int (of_char c) - 48"

fun atoi_digits :: "int \<Rightarrow> string \<Rightarrow> int" where
  "atoi_digits acc [] = acc"
| "atoi_digits acc (c # cs) =
     (if is_digit c then atoi_digits (10 * acc + digit_of c) cs else acc)"

definition c_strtol :: "string \<Rightarrow> int" where
  "c_strtol s =
    (let v = (case dropWhile is_space s of
                [] \<Rightarrow> 0
              | c # cs \<Rightarrow>
                  if c = CHR ''-'' then - atoi_digits 0 cs
                  else if c = CHR ''+'' then atoi_digits 0 cs
                  else atoi_digits 0 (c # cs))
     in max (- (2 ^ 63)) (min (2 ^ 63 - 1) v))"

definition c_atoi :: "string \<Rightarrow> int" where
  "c_atoi s = (c_strtol s + 2 ^ 31) mod 2 ^ 32 - 2 ^ 31"

section \<open>Properties\<close>

subsection \<open>The NONE strategy\<close>

text \<open>
  C9, as the sources have it: the constructor of the NONE strategy installs
  neither a per-move nor a per-simulation operation (both pointers are
  \<^verbatim>\<open>NULL\<close>) and no data, so the strategy itself never computes a compensation;
  it fails on any option string.
\<close>

theorem none_installs_no_operations:
  "uct_dynkomi_init_none arg b =
    (case arg of
       None \<Rightarrow> Inr \<lparr>permove = None, persim = None, data = (),
                      score = zero_stats, value_d = zero_stats\<rparr>
     | Some str \<Rightarrow> Inl No_arguments_accepted)"
  by (cases arg) (simp_all add: uct_dynkomi_init_none_def)

text \<open>
  C9, as the claim states it, needs operations that return 0; on a 19x19 board
  the strategy is built without any.
\<close>

theorem none_operations_counterexample:
  "(case uct_dynkomi_init_none None board19 of
      Inl e \<Rightarrow> False
    | Inr d \<Rightarrow> permove d = None \<and> persim d = None)"
  by (simp add: uct_dynkomi_init_none_def)

subsection \<open>The LINEAR strategy\<close>

lemma linear_permove_eq:
  "linear_permove beh d b tr =
    (if lin_moves (data d) \<le> moves b then Some 0
     else float_div (beh b (handicap_value (data d)) * real_of_int (lin_moves (data d) - moves b))
            (real_of_int (lin_moves (data d))))"
  by (simp add: linear_permove_def Let_def)

lemma linear_permove_inside:
  assumes "0 \<le> moves b" and "moves b < lin_moves (data d)"
  shows "linear_permove beh d b tr =
    Some (beh b (handicap_value (data d)) * real_of_int (lin_moves (data d) - moves b)
          / real_of_int (lin_moves (data d)))"
  using assms by (simp add: linear_permove_eq float_div_def)

text \<open>
  C10: on a board whose move count is not negative, the per-move operation
  of the LINEAR strategy always returns a value: the division is reached
  only with \<open>moves b < lin_moves\<close>, where the divisor is at least 1, and
  with a budget of 0 the operation returns 0. The constructor leaves the
  budget at 0 on boards smaller than 19x19.
\<close>

theorem linear_permove_total:
  assumes "0 \<le> moves b"
  shows "(\<exists>r. linear_permove beh d b tr = Some r) \<and>
    (moves b < lin_moves (data d) \<longrightarrow>
       1 \<le> lin_moves (data d) \<and>
       linear_permove beh d b tr =
         Some (beh b (handicap_value (data d)) * real_of_int (lin_moves (data d) - moves b)
               / real_of_int (lin_moves (data d)))) \<and>
    (lin_moves (data d) = 0 \<longrightarrow> linear_permove beh d b tr = Some 0) \<and>
    (board_size b - 2 < 19 \<longrightarrow>
       (\<exists>d0. uct_dynkomi_init_linear atoi None b = Inr d0 \<and> lin_moves (data d0) = 0))"
proof -
  have "\<exists>r. linear_permove beh d b tr = Some r"
  proof (cases "lin_moves (data d) \<le> moves b")
    case True
    then show ?thesis by (simp add: linear_permove_eq)
  next
    case False
    with assms show ?thesis by (simp add: linear_permove_inside)
  qed
  moreover have "moves b < lin_moves (data d) \<longrightarrow> 1 \<le> lin_moves (data d)"
    using assms by arith
  moreover have "lin_moves (data d) = 0 \<longrightarrow> linear_permove beh d b tr = Some 0"
    using assms by (simp add: linear_permove_eq)
  moreover have "board_size b - 2 < 19 \<longrightarrow>
      (\<exists>d0. uct_dynkomi_init_linear atoi None b = Inr d0 \<and> lin_moves (data d0) = 0)"
    by (simp add: uct_dynkomi_init_linear_def)
  ultimately show ?thesis
    using assms by (simp add: linear_permove_inside)
qed

theorem linear_permove_total_witness:
  "0 \<le> moves board9 \<and> board_size board9 - 2 < 19 \<and>
   (\<exists>d0. uct_dynkomi_init_linear c_atoi None board9 = Inr d0 \<and> lin_moves (data d0) = 0 \<and>
      linear_permove (handicap_stones_komi 3) d0 board9 black_root = Some 0)"
proof -
  have h: "0 \<le> moves board9" by (simp add: board9_def)
  obtain d0 where d0: "uct_dynkomi_init_linear c_atoi None board9 = Inr d0"
    and l0: "lin_moves (data d0) = 0"
    using linear_permove_total [OF h, of "handicap_stones_komi 3" linear19 black_root c_atoi]
    by (auto simp add: board9_def)
  from linear_permove_total [OF h, of "handicap_stones_komi 3" d0 black_root c_atoi] l0
  have "linear_permove (handicap_stones_komi 3) d0 board9 black_root = Some 0" by simp
  with h d0 l0 show ?thesis by (simp add: board9_def)
qed

text \<open>
  C4, as the sources have it. Let the handicap compensation of the board be
  \<open>base_komi\<close> whatever the move count. The per-move operation returns 0
  from the budget on; with a positive budget it returns \<open>base_komi\<close> at
  move 0; for a positive \<open>base_komi\<close> it is strictly decreasing over the
  moves below the budget, and for a \<open>base_komi\<close> that is not negative it is
  non-increasing over all moves.
\<close>

theorem linear_permove_schedule:
  assumes "\<forall>p. beh (b\<lparr>moves := p\<rparr>) (handicap_value (data d)) = base_komi"
  shows "(lin_moves (data d) \<le> p \<longrightarrow> linear_permove beh d (b\<lparr>moves := p\<rparr>) tr = Some 0) \<and>
    (0 < lin_moves (data d) \<longrightarrow> linear_permove beh d (b\<lparr>moves := 0\<rparr>) tr = Some base_komi) \<and>
    (0 < base_komi \<and> 0 \<le> p \<and> p < q \<and> q < lin_moves (data d) \<longrightarrow>
       (\<exists>x y. linear_permove beh d (b\<lparr>moves := p\<rparr>) tr = Some x \<and>
              linear_permove beh d (b\<lparr>moves := q\<rparr>) tr = Some y \<and> y < x)) \<and>
    (0 \<le> base_komi \<and> 0 \<le> p \<and> p \<le> q \<longrightarrow>
       (\<exists>x y. linear_permove beh d (b\<lparr>moves := p\<rparr>) tr = Some x \<and>
              linear_permove beh d (b\<lparr>moves := q\<rparr>) tr = Some y \<and> y \<le> x))"
proof -
  let ?m = "lin_moves (data d)"
  let ?f = "\<lambda>p. linear_permove beh d (b\<lparr>moves := p\<rparr>) tr"
  have zero: "?f p = Some 0" if "?m \<le> p" for p
    using that by (simp add: linear_permove_eq)
  have inside: "?f p = Some (base_komi * real_of_int (?m - p) / real_of_int ?m)"
    if "0 \<le> p" "p < ?m" for p
    using that assms linear_permove_inside [of "b\<lparr>moves := p\<rparr>" d beh tr] by simp
  have start: "?f 0 = Some base_komi" if "0 < ?m"
    using that inside [of 0] by simp
  have strict: "\<exists>x y. ?f p = Some x \<and> ?f q = Some y \<and> y < x"
    if "0 < base_komi" "0 \<le> p" "p < q" "q < ?m"
  proof -
    from that have m: "0 < real_of_int ?m" by simp
    from that have "base_komi * real_of_int (?m - q) < base_komi * real_of_int (?m - p)"
      by simp
    with m have "base_komi * real_of_int (?m - q) / real_of_int ?m
        < base_komi * real_of_int (?m - p) / real_of_int ?m"
      by (simp add: divide_strict_right_mono)
    with that show ?thesis by (simp add: inside)
  qed
  have mono: "\<exists>x y. ?f p = Some x \<and> ?f q = Some y \<and> y \<le> x"
    if "0 \<le> base_komi" "0 \<le> p" "p \<le> q"
  proof (cases "?m \<le> q")
    case True
    show ?thesis
    proof (cases "?m \<le> p")
      case True
      with \<open>?m \<le> q\<close> show ?thesis by (simp add: zero)
    next
      case False
      with that have "0 \<le> base_komi * real_of_int (?m - p) / real_of_int ?m" by simp
      with False that \<open>?m \<le> q\<close> show ?thesis by (simp add: zero inside)
    qed
  next
    case False
    with that have m: "0 < real_of_int ?m" by simp
    from that have "base_komi * real_of_int (?m - q) \<le> base_komi * real_of_int (?m - p)"
      by (simp add: mult_left_mono)
    with m have "base_komi * real_of_int (?m - q) / real_of_int ?m
        \<le> base_komi * real_of_int (?m - p) / real_of_int ?m"
      by (simp add: divide_right_mono)
    with False that show ?thesis by (simp add: inside)
  qed
  from zero start strict mono show ?thesis by blast
qed

theorem linear_permove_schedule_witness:
  "(\<forall>p. handicap_stones_komi 3 (board19\<lparr>moves := p\<rparr>) (handicap_value (data linear19)) = 21) \<and>
   linear_permove (handicap_stones_komi 3) linear19 (board19\<lparr>moves := 0\<rparr>) black_root = Some 21 \<and>
   (\<exists>x y. linear_permove (handicap_stones_komi 3) linear19 (board19\<lparr>moves := 0\<rparr>) black_root
            = Some x \<and>
          linear_permove (handicap_stones_komi 3) linear19 (board19\<lparr>moves := 100\<rparr>) black_root
            = Some y \<and> y < x)"
proof -
  have h: "\<forall>p. handicap_stones_komi 3 (board19\<lparr>moves := p\<rparr>) (handicap_value (data linear19)) = 21"
    by (simp add: handicap_stones_komi_def linear19_def)
  have m: "lin_moves (data linear19) = 200"
    by (simp add: linear19_def)
  from linear_permove_schedule
    [where beh = "handicap_stones_komi 3" and b = board19 and d = linear19 and base_komi = 21
       and p = 0 and q = 100 and tr = black_root, OF h] h m
  show ?thesis by auto
qed

text \<open>
  C4, as the claim states it, fails on a board without handicap stones: the
  operation returns 0 at move 0 and at move 1, both below the budget of 200.
\<close>

theorem linear_permove_schedule_counterexample:
  "linear_permove (handicap_stones_komi 0) linear19 (board19\<lparr>moves := 0\<rparr>) black_root = Some 0 \<and>
   linear_permove (handicap_stones_komi 0) linear19 (board19\<lparr>moves := 1\<rparr>) black_root = Some 0 \<and>
   (1 :: int) < lin_moves (data linear19)"
  by (simp add: linear_permove_eq float_div_def handicap_stones_komi_def linear19_def board19_def)

subsection \<open>The ADAPTIVE strategy: indicators and the per-move operation\<close>

lemma komi_by_color_twice [simp]: "komi_by_color (komi_by_color k c) c = k"
  by (simp add: komi_by_color_def)

lemma komi_by_color_diff:
  "komi_by_color (k - m) c = komi_by_color k c - komi_by_color m c"
  by (simp add: komi_by_color_def)

lemma call_adapter_score:
  "call_adapter f eml (d\<lparr>score := s\<rparr>) b = call_adapter f eml d b"
  by (cases f) (simp_all add: adapter_sigmoid_def adapter_linear_def)

text \<open>
  C3: below 200 samples of its statistic each indicator returns the
  compensation of the tree and leaves the strategy, both statistics with it,
  as it was; the mean plays no part.
\<close>

theorem indicators_wait_for_samples:
  "(playouts (score d) < 200 \<longrightarrow>
      komi_by_score eml d b tr color = (Some (extra_komi tr), d)) \<and>
   (playouts (value_d d) < 200 \<longrightarrow>
      komi_by_value d b tr color = (extra_komi tr, d))"
  by (simp add: komi_by_score_def komi_by_value_def TRUSTWORTHY_KOMI_PLAYOUTS_def)

theorem indicators_wait_for_samples_witness:
  "playouts (score (adaptive19\<lparr>score := \<lparr>playouts = 199, value_s = 25 / 2\<rparr>\<rparr>)) < 200 \<and>
   komi_by_score sixty_moves_left (adaptive19\<lparr>score := \<lparr>playouts = 199, value_s = 25 / 2\<rparr>\<rparr>)
     board19 black_root S_WHITE
     = (Some 4, adaptive19\<lparr>score := \<lparr>playouts = 199, value_s = 25 / 2\<rparr>\<rparr>) \<and>
   playouts (value_d (adaptive19\<lparr>score := \<lparr>playouts = 199, value_s = 25 / 2\<rparr>\<rparr>)) < 200 \<and>
   komi_by_value (adaptive19\<lparr>score := \<lparr>playouts = 199, value_s = 25 / 2\<rparr>\<rparr>)
     board19 black_root S_WHITE
     = (4, adaptive19\<lparr>score := \<lparr>playouts = 199, value_s = 25 / 2\<rparr>\<rparr>)"
proof -
  let ?d = "adaptive19\<lparr>score := \<lparr>playouts = 199, value_s = 25 / 2\<rparr>\<rparr>"
  have s: "playouts (score ?d) < 200" by simp
  have v: "playouts (value_d ?d) < 200" by (simp add: adaptive19_def zero_stats_def)
  have t: "extra_komi black_root = 4" by (simp add: black_root_def)
  from indicators_wait_for_samples [of ?d sixty_moves_left board19 black_root S_WHITE] s v t
  show ?thesis by simp
qed

text \<open>
  C5: from 200 samples on the score indicator sets the count of the score
  statistic to 1 and keeps its mean, and returns the compensation of the
  tree plus \<open>p\<close> times that mean, where \<open>p\<close> is
  \<open>adapt_base + r * (1 - adapt_base)\<close> for the rate \<open>r\<close> of the adapter,
  at most 0.9.
\<close>

theorem komi_by_score_adapts:
  assumes "200 \<le> playouts (score d)"
  shows "komi_by_score eml d b tr color =
    (map_option
       (\<lambda>r. extra_komi tr +
            min (9 / 10) (adapt_base (data d) + r * (1 - adapt_base (data d)))
            * value_s (score d))
       (call_adapter (adapter (data d)) eml d b),
     d\<lparr>score := (score d)\<lparr>playouts := 1\<rparr>\<rparr>)"
  using assms
  by (simp add: komi_by_score_def TRUSTWORTHY_KOMI_PLAYOUTS_def call_adapter_score Let_def
      min_def split: option.splits)

text \<open>
  On move 100 of 200 the linear adapter gives the rate 0.75: with a mean
  score of 8 at a compensation of 4 the score indicator returns 10.
\<close>

theorem komi_by_score_adapts_witness:
  "200 \<le> playouts (score (adaptive19
      \<lparr>data := (adaptive_defaults board19)\<lparr>adapter := Adapter_linear\<rparr>,
       score := \<lparr>playouts = 200, value_s = 8\<rparr>\<rparr>)) \<and>
   komi_by_score sixty_moves_left
     (adaptive19\<lparr>data := (adaptive_defaults board19)\<lparr>adapter := Adapter_linear\<rparr>,
                 score := \<lparr>playouts = 200, value_s = 8\<rparr>\<rparr>)
     (board19\<lparr>moves := 100\<rparr>) black_root S_WHITE
   = (Some 10,
      adaptive19\<lparr>data := (adaptive_defaults board19)\<lparr>adapter := Adapter_linear\<rparr>,
                  score := \<lparr>playouts = 1, value_s = 8\<rparr>\<rparr>)"
proof -
  let ?d = "adaptive19\<lparr>data := (adaptive_defaults board19)\<lparr>adapter := Adapter_linear\<rparr>,
                       score := \<lparr>playouts = 200, value_s = 8\<rparr>\<rparr>"
  have h: "200 \<le> playouts (score ?d)" by simp
  have r: "call_adapter (adapter (data ?d)) sixty_moves_left ?d (board19\<lparr>moves := 100\<rparr>)
      = Some (3 / 4)"
    by (simp add: adaptive_defaults_def adapter_linear_def float_div_def)
  have a: "adapt_base (data ?d) = 0" by (simp add: adaptive_defaults_def)
  have t: "extra_komi black_root = 4" by (simp add: black_root_def)
  from komi_by_score_adapts [OF h, of sixty_moves_left "board19\<lparr>moves := 100\<rparr>" black_root S_WHITE]
    h r a t
  show ?thesis by simp
qed

text \<open>
  C7: up to \<open>lead_moves\<close> moves the per-move operation returns the handicap
  compensation of the board for a stone value of 7 and leaves the strategy
  as it was, whatever the two statistics hold.
\<close>

theorem adaptive_permove_lead:
  assumes "moves b \<le> lead_moves (data d)"
  shows "adaptive_permove beh eml (d\<lparr>score := s, value_d := v\<rparr>) b tr
     = (Some (beh b 7), d\<lparr>score := s, value_d := v\<rparr>)"
  using assms by (simp add: adaptive_permove_def)

theorem adaptive_permove_lead_witness:
  "moves (board19\<lparr>moves := 20\<rparr>) \<le> lead_moves (data adaptive19) \<and>
   adaptive_permove (handicap_stones_komi 3) sixty_moves_left
     (adaptive19\<lparr>score := \<lparr>playouts = 5000, value_s = - 30\<rparr>,
                 value_d := \<lparr>playouts = 5000, value_s = 1 / 10\<rparr>\<rparr>)
     (board19\<lparr>moves := 20\<rparr>) black_root
   = (Some 21, adaptive19\<lparr>score := \<lparr>playouts = 5000, value_s = - 30\<rparr>,
                           value_d := \<lparr>playouts = 5000, value_s = 1 / 10\<rparr>\<rparr>)"
proof -
  have h: "moves (board19\<lparr>moves := 20\<rparr>) \<le> lead_moves (data adaptive19)"
    by (simp add: adaptive19_def adaptive_defaults_def board19_def)
  from adaptive_permove_lead
    [OF h, where beh = "handicap_stones_komi 3" and eml = sixty_moves_left
       and s = "\<lparr>playouts = 5000, value_s = - 30\<rparr>"
       and v = "\<lparr>playouts = 5000, value_s = 1 / 10\<rparr>" and tr = black_root] h
  show ?thesis by (simp add: handicap_stones_komi_def)
qed

lemma call_indicator_value_total:
  "\<exists>k. fst (call_indicator Komi_by_value eml d b tr color) = Some k"
  by (simp add: split_def Let_def)

text \<open>
  C2, as the sources have it. After \<open>lead_moves\<close> moves the per-move
  operation returns the candidate of the indicator where it is strictly
  above the floor in the frame of the side, and the floor itself otherwise;
  the floor is \<open>- max_losing_komi\<close> in that frame, so no returned value is
  below it there. With the value indicator a value is always returned.
\<close>

theorem adaptive_permove_floor:
  assumes "lead_moves (data d) < moves b"
  shows "(let color = stone_other (root_color tr);
             min_komi = komi_by_color (- max_losing_komi (data d)) color;
             candidate = fst (call_indicator (indicator (data d)) eml d b tr color);
             result = fst (adaptive_permove beh eml d b tr)
         in komi_by_color min_komi color = - max_losing_komi (data d) \<and>
            result =
              map_option
                (\<lambda>k. if komi_by_color min_komi color < komi_by_color k color then k else min_komi)
                candidate \<and>
            (\<forall>k. result = Some k \<longrightarrow> - max_losing_komi (data d) \<le> komi_by_color k color) \<and>
            (indicator (data d) = Komi_by_value \<longrightarrow> (\<exists>k. result = Some k)) \<and>
            snd (adaptive_permove beh eml d b tr)
              = snd (call_indicator (indicator (data d)) eml d b tr color))"
proof -
  define color where "color = stone_other (root_color tr)"
  define min_komi where "min_komi = komi_by_color (- max_losing_komi (data d)) color"
  define candidate where "candidate = fst (call_indicator (indicator (data d)) eml d b tr color)"
  define result where "result = fst (adaptive_permove beh eml d b tr)"
  have floor: "komi_by_color min_komi color = - max_losing_komi (data d)"
    by (simp add: min_komi_def)
  have res: "result =
      map_option
        (\<lambda>k. if komi_by_color min_komi color < komi_by_color k color then k else min_komi)
        candidate"
    unfolding result_def candidate_def min_komi_def color_def
    using assms by (simp add: adaptive_permove_def Let_def split_def komi_by_color_diff)
  have bound: "- max_losing_komi (data d) \<le> komi_by_color k color" if "result = Some k" for k
  proof -
    from that res obtain c where c: "candidate = Some c"
      and k: "k = (if komi_by_color min_komi color < komi_by_color c color then c else min_komi)"
      by (cases candidate) auto
    show ?thesis
    proof (cases "komi_by_color min_komi color < komi_by_color c color")
      case True
      with k floor show ?thesis by simp
    next
      case False
      with k floor show ?thesis by simp
    qed
  qed
  have total: "\<exists>k. result = Some k" if "indicator (data d) = Komi_by_value"
  proof -
    from that obtain c where "candidate = Some c"
      using call_indicator_value_total [of eml d b tr color] by (auto simp add: candidate_def)
    with res show ?thesis by simp
  qed
  have state: "snd (adaptive_permove beh eml d b tr)
      = snd (call_indicator (indicator (data d)) eml d b tr color)"
    using assms by (simp add: adaptive_permove_def color_def Let_def split_def)
  from floor res bound total state show ?thesis
    unfolding Let_def color_def [symmetric] min_komi_def [symmetric]
      candidate_def [symmetric] result_def [symmetric]
    by blast
qed

text \<open>
  Thirty moves into the game, the side being black, the value indicator finds
  the red zone at a compensation of -9 and proposes -11; the per-move
  operation returns the floor, -10.
\<close>

theorem adaptive_permove_floor_witness:
  "lead_moves (data adaptive19_value) < moves (board19\<lparr>moves := 30\<rparr>) \<and>
   fst (call_indicator (indicator (data adaptive19_value)) sixty_moves_left
         (adaptive19_value\<lparr>value_d := \<lparr>playouts = 200, value_s = 3 / 10\<rparr>\<rparr>)
         (board19\<lparr>moves := 30\<rparr>) \<lparr>extra_komi = - 9, root_color = S_WHITE\<rparr> S_BLACK)
     = Some (- 11) \<and>
   fst (adaptive_permove (handicap_stones_komi 3) sixty_moves_left
         (adaptive19_value\<lparr>value_d := \<lparr>playouts = 200, value_s = 3 / 10\<rparr>\<rparr>)
         (board19\<lparr>moves := 30\<rparr>) \<lparr>extra_komi = - 9, root_color = S_WHITE\<rparr>)
     = Some (- 10)"
proof -
  let ?d = "adaptive19_value\<lparr>value_d := \<lparr>playouts = 200, value_s = 3 / 10\<rparr>\<rparr>"
  let ?b = "board19\<lparr>moves := 30\<rparr>"
  let ?t = "\<lparr>extra_komi = - 9, root_color = S_WHITE\<rparr>"
  have a: "data ?d = (adaptive_defaults board19)\<lparr>indicator := Komi_by_value\<rparr>"
    by (simp add: adaptive19_value_def)
  have h: "lead_moves (data ?d) < moves ?b"
    by (simp add: a adaptive_defaults_def board19_def)
  have c: "fst (call_indicator (indicator (data ?d)) sixty_moves_left ?d ?b ?t
               (stone_other (root_color ?t)))
      = Some (- 11)"
    by (simp add: a adaptive_defaults_def board19_def komi_by_value_def komi_by_color_def
        TRUSTWORTHY_KOMI_PLAYOUTS_def Let_def)
  have m: "max_losing_komi (data ?d) = 10"
    by (simp add: a adaptive_defaults_def)
  from adaptive_permove_floor
    [OF h, of ?t sixty_moves_left "handicap_stones_komi 3", unfolded Let_def c m]
  have "fst (adaptive_permove (handicap_stones_komi 3) sixty_moves_left ?d ?b ?t) = Some (- 10)"
    by (simp add: komi_by_color_def)
  with h c show ?thesis by simp
qed

text \<open>
  C2, as the claim states it, fails before \<open>lead_moves\<close> moves: on the
  empty 19x19 board with three handicap stones, the side being white, the
  per-move operation returns 21, which is -21 in the frame of the side and
  below the floor of -10.
\<close>

theorem adaptive_permove_floor_counterexample:
  "adaptive_permove (handicap_stones_komi 3) sixty_moves_left adaptive19 board19 black_root
     = (Some 21, adaptive19) \<and>
   stone_other (root_color black_root) = S_WHITE \<and>
   komi_by_color 21 S_WHITE < - max_losing_komi (data adaptive19)"
  by (simp add: adaptive_permove_def adaptive19_def adaptive_defaults_def board19_def
      black_root_def handicap_stones_komi_def komi_by_color_def)

subsection \<open>The value indicator, zone by zone\<close>

lemma komi_by_value_blocks:
  "komi_by_value d b tr color =
    (let a = data d in
     if playouts (value_d d) < TRUSTWORTHY_KOMI_PLAYOUTS then (extra_komi tr, d)
     else
       let d1 = d\<lparr>value_d := (value_d d)\<lparr>playouts := 1\<rparr>\<rparr>;
           v = (if color = S_WHITE then 1 - value_s (value_d d) else value_s (value_d d));
           extra = komi_by_color (extra_komi tr) color;
           step = (if score_step_byavg a \<noteq> 0 then
                    let sv = (if color = S_WHITE then - value_s (score d) else value_s (score d))
                    in if 0 \<le> sv then c_round (sv * score_step_byavg a) else score_step a
                   else score_step a);
           d2 = (if score_step_byavg a \<noteq> 0 then d1\<lparr>score := (score d)\<lparr>playouts := 1\<rparr>\<rparr>
                 else d1)
       in
         if v < zone_red a then
           (komi_by_color (extra - real_of_int step) color,
            d2\<lparr>data := (if 0 < extra then a\<lparr>komi_ratchet := extra\<rparr> else a)\<rparr>)
         else if v < zone_green a then
           (komi_by_color extra color, d2)
         else
           let extra1 = extra + real_of_int step;
               a1 = (if 0 < komi_ratchet_maxage a \<and> komi_ratchet_maxage a < komi_ratchet_age a
                     then a\<lparr>komi_ratchet := 1000, komi_ratchet_age := 0\<rparr> else a)
           in
             if use_komi_ratchet a1 \<and> komi_ratchet a1 \<le> extra1 then
               (komi_by_color (komi_ratchet a1 - 1) color,
                d2\<lparr>data := a1\<lparr>komi_ratchet_age := komi_ratchet_age a1 + 1\<rparr>\<rparr>)
             else (komi_by_color extra1 color, d2\<lparr>data := a1\<rparr>))"
  unfolding komi_by_value_def Let_def by (simp split: prod.splits)

lemma value_eval_untrusted:
  assumes "\<not> trusted e"
  shows "fst (value_eval d e) = extra_komi (ev_tree e)"
    and "data (snd (value_eval d e)) = data d"
  using assms
  by (simp_all add: value_eval_def komi_by_value_blocks trusted_def
      split del: if_split cong: if_cong)

lemma value_eval_red:
  assumes "red_zone (data d) e"
  shows "fst (value_eval d e) =
           komi_by_color (side_komi e - real_of_int (eval_step (data d) e)) (ev_color e)"
    and "data (snd (value_eval d e)) =
           (if 0 < side_komi e then (data d)\<lparr>komi_ratchet := side_komi e\<rparr> else data d)"
  using assms
  by (simp_all add: value_eval_def komi_by_value_blocks trusted_def red_zone_def pov_value_def
      side_komi_def eval_step_def Let_def split del: if_split cong: if_cong)

lemma value_eval_yellow:
  assumes "trusted e" and "\<not> red_zone (data d) e" and "\<not> green_zone (data d) e"
  shows "fst (value_eval d e) = extra_komi (ev_tree e)"
    and "data (snd (value_eval d e)) = data d"
proof -
  note defs = value_eval_def komi_by_value_blocks trusted_def red_zone_def green_zone_def
    pov_value_def komi_by_color_def Let_def
  show "fst (value_eval d e) = extra_komi (ev_tree e)"
    using assms
    by (cases "score_step_byavg (data d) = 0";
        simp add: defs split del: if_split cong: if_cong)
  show "data (snd (value_eval d e)) = data d"
    using assms
    by (cases "score_step_byavg (data d) = 0";
        simp add: defs split del: if_split cong: if_cong)
qed

lemma value_eval_green:
  assumes "green_zone (data d) e"
  shows "fst (value_eval d e) =
      komi_by_color
        (if ratchet_limited (data d) e then komi_ratchet (after_expiry (data d)) - 1
         else side_komi e + real_of_int (eval_step (data d) e)) (ev_color e)"
    and "data (snd (value_eval d e)) =
      (if ratchet_limited (data d) e
       then (after_expiry (data d))
              \<lparr>komi_ratchet_age := komi_ratchet_age (after_expiry (data d)) + 1\<rparr>
       else after_expiry (data d))"
proof -
  note defs = value_eval_def komi_by_value_blocks trusted_def red_zone_def green_zone_def
    pov_value_def side_komi_def eval_step_def ratchet_limited_def ratchet_expires_def
    after_expiry_def Let_def
  show "fst (value_eval d e) =
      komi_by_color
        (if ratchet_limited (data d) e then komi_ratchet (after_expiry (data d)) - 1
         else side_komi e + real_of_int (eval_step (data d) e)) (ev_color e)"
    using assms
    by (cases "ev_color e"; cases "score_step_byavg (data d) = 0"; simp add: defs)
  show "data (snd (value_eval d e)) =
      (if ratchet_limited (data d) e
       then (after_expiry (data d))
              \<lparr>komi_ratchet_age := komi_ratchet_age (after_expiry (data d)) + 1\<rparr>
       else after_expiry (data d))"
    using assms
    by (cases "ev_color e"; cases "score_step_byavg (data d) = 0"; simp add: defs)
qed

lemma zone_cases:
  obtains (untrusted) "\<not> trusted e"
  | (red) "red_zone a e"
  | (yellow) "trusted e" "\<not> red_zone a e" "\<not> green_zone a e"
  | (green) "green_zone a e"
  by (auto simp add: red_zone_def green_zone_def)

lemma same_settings_refl: "same_settings a a"
  by (simp add: same_settings_def)

lemma same_settings_trans:
  assumes "same_settings a a'" and "same_settings a' a''"
  shows "same_settings a a''"
proof -
  from assms(1) have 1: "a' = a\<lparr>komi_ratchet := komi_ratchet a', komi_ratchet_age := komi_ratchet_age a'\<rparr>"
    by (simp add: same_settings_def)
  from assms(2) have 2: "a'' = a'\<lparr>komi_ratchet := komi_ratchet a'', komi_ratchet_age := komi_ratchet_age a''\<rparr>"
    by (simp add: same_settings_def)
  have "a'' = a\<lparr>komi_ratchet := komi_ratchet a'', komi_ratchet_age := komi_ratchet_age a''\<rparr>"
    by (subst 2, subst 1) simp
  then show ?thesis by (simp add: same_settings_def)
qed

lemma same_settings_fields:
  assumes "same_settings a a'"
  shows "use_komi_ratchet a' = use_komi_ratchet a"
    and "komi_ratchet_maxage a' = komi_ratchet_maxage a"
    and "zone_red a' = zone_red a"
    and "zone_green a' = zone_green a"
    and "score_step a' = score_step a"
    and "score_step_byavg a' = score_step_byavg a"
proof -
  from assms have eq: "a' = a\<lparr>komi_ratchet := komi_ratchet a', komi_ratchet_age := komi_ratchet_age a'\<rparr>"
    by (simp add: same_settings_def)
  show "use_komi_ratchet a' = use_komi_ratchet a" by (subst eq) simp
  show "komi_ratchet_maxage a' = komi_ratchet_maxage a" by (subst eq) simp
  show "zone_red a' = zone_red a" by (subst eq) simp
  show "zone_green a' = zone_green a" by (subst eq) simp
  show "score_step a' = score_step a" by (subst eq) simp
  show "score_step_byavg a' = score_step_byavg a" by (subst eq) simp
qed

lemma same_settings_zones:
  assumes "same_settings a a'"
  shows "green_zone a' e = green_zone a e"
    and "red_zone a' e = red_zone a e"
    and "eval_step a' e = eval_step a e"
  using same_settings_fields [OF assms]
  by (simp_all add: green_zone_def red_zone_def eval_step_def Let_def)

lemma value_eval_settings: "same_settings (data d) (data (snd (value_eval d e)))"
proof (cases rule: zone_cases [where e = e and a = "data d"])
  case untrusted
  then show ?thesis by (simp add: value_eval_untrusted same_settings_def)
next
  case red
  then show ?thesis by (simp add: value_eval_red same_settings_def)
next
  case yellow
  then show ?thesis by (simp add: value_eval_yellow same_settings_def)
next
  case green
  then show ?thesis by (simp add: value_eval_green same_settings_def after_expiry_def)
qed

lemma eval_keeps_bound:
  assumes "\<not> (red_zone (data d) e \<and> 0 < side_komi e)"
    and "\<not> (green_zone (data d) e \<and> ratchet_expires (data d))"
  shows "komi_ratchet (data (snd (value_eval d e))) = komi_ratchet (data d)"
proof (cases rule: zone_cases [where e = e and a = "data d"])
  case untrusted
  then show ?thesis by (simp add: value_eval_untrusted)
next
  case red
  with assms show ?thesis by (simp add: value_eval_red)
next
  case yellow
  then show ?thesis by (simp add: value_eval_yellow)
next
  case green
  with assms show ?thesis by (simp add: value_eval_green after_expiry_def)
qed

lemma green_live:
  assumes "green_zone (data d) e" and "\<not> ratchet_expires (data d)"
    and "use_komi_ratchet (data d)"
  shows "komi_by_color (fst (value_eval d e)) (ev_color e) < komi_ratchet (data d)"
    and "komi_ratchet (data d) \<le> side_komi e + real_of_int (eval_step (data d) e) \<Longrightarrow>
         komi_by_color (fst (value_eval d e)) (ev_color e) = komi_ratchet (data d) - 1 \<and>
         komi_ratchet_age (data (snd (value_eval d e))) = komi_ratchet_age (data d) + 1"
  using assms
  by (simp_all add: value_eval_green after_expiry_def ratchet_limited_def)

lemma limited_live:
  assumes "ratchet_limited (data d) e" and "\<not> ratchet_expires (data d)"
  shows "komi_by_color (fst (value_eval d e)) (ev_color e) = komi_ratchet (data d) - 1"
    and "komi_ratchet_age (data (snd (value_eval d e))) = komi_ratchet_age (data d) + 1"
    and "komi_ratchet (data (snd (value_eval d e))) = komi_ratchet (data d)"
proof -
  from assms have g: "green_zone (data d) e"
    by (simp add: ratchet_limited_def)
  from assms show "komi_by_color (fst (value_eval d e)) (ev_color e) = komi_ratchet (data d) - 1"
    by (simp add: value_eval_green [OF g] after_expiry_def)
  from assms show "komi_ratchet_age (data (snd (value_eval d e))) = komi_ratchet_age (data d) + 1"
    by (simp add: value_eval_green [OF g] after_expiry_def)
  from assms show "komi_ratchet (data (snd (value_eval d e))) = komi_ratchet (data d)"
    by (simp add: value_eval_green [OF g] after_expiry_def)
qed

lemma green_expired:
  assumes "green_zone (data d) e" and "ratchet_expires (data d)"
  shows "komi_ratchet (data (snd (value_eval d e))) = 1000"
    and "side_komi e + real_of_int (eval_step (data d) e) < 1000 \<Longrightarrow>
         fst (value_eval d e)
           = komi_by_color (side_komi e + real_of_int (eval_step (data d) e)) (ev_color e) \<and>
         komi_ratchet_age (data (snd (value_eval d e))) = 0"
  using assms
  by (simp_all add: value_eval_green after_expiry_def ratchet_limited_def)

lemma trace_keeps_bound:
  assumes "\<forall>c \<in> set (value_trace d es).
      \<not> (red_zone (data (before c)) (found c) \<and> 0 < side_komi (found c)) \<and>
      \<not> (green_zone (data (before c)) (found c) \<and> ratchet_expires (data (before c)))"
  shows "\<forall>c \<in> set (value_trace d es).
      komi_ratchet (data (before c)) = komi_ratchet (data d) \<and>
      use_komi_ratchet (data (before c)) = use_komi_ratchet (data d) \<and>
      returned c = fst (value_eval (before c) (found c)) \<and>
      after c = snd (value_eval (before c) (found c))"
  using assms
proof (induction es arbitrary: d)
  case Nil
  then show ?case by simp
next
  case (Cons e es)
  let ?d' = "snd (value_eval d e)"
  from Cons.prems have head: "\<not> (red_zone (data d) e \<and> 0 < side_komi e)"
      "\<not> (green_zone (data d) e \<and> ratchet_expires (data d))"
    by simp_all
  from Cons.prems have tail: "\<forall>c \<in> set (value_trace ?d' es).
      \<not> (red_zone (data (before c)) (found c) \<and> 0 < side_komi (found c)) \<and>
      \<not> (green_zone (data (before c)) (found c) \<and> ratchet_expires (data (before c)))"
    by simp
  have bound: "komi_ratchet (data ?d') = komi_ratchet (data d)"
    using head by (rule eval_keeps_bound)
  have use: "use_komi_ratchet (data ?d') = use_komi_ratchet (data d)"
    using value_eval_settings [of d e] by (rule same_settings_fields)
  from Cons.IH [OF tail] bound use show ?case by simp
qed

lemma limited_run:
  assumes "\<forall>c \<in> set (value_trace d es). ratchet_limited (data (before c)) (found c)"
    and "komi_ratchet_age (data d) + int (length es) \<le> komi_ratchet_maxage (data d) + 1"
  shows "komi_ratchet_age (data (value_run d es)) = komi_ratchet_age (data d) + int (length es) \<and>
    komi_ratchet (data (value_run d es)) = komi_ratchet (data d) \<and>
    same_settings (data d) (data (value_run d es)) \<and>
    (\<forall>c \<in> set (value_trace d es).
       komi_by_color (returned c) (ev_color (found c)) = komi_ratchet (data d) - 1)"
  using assms
proof (induction es arbitrary: d)
  case Nil
  then show ?case by (simp add: same_settings_refl)
next
  case (Cons e es)
  let ?d' = "snd (value_eval d e)"
  from Cons.prems have lim: "ratchet_limited (data d) e" by simp
  from Cons.prems have live: "\<not> ratchet_expires (data d)"
    by (simp add: ratchet_expires_def)
  note step = limited_live [OF lim live]
  have set: "same_settings (data d) (data ?d')" by (rule value_eval_settings)
  from Cons.prems have tail:
    "\<forall>c \<in> set (value_trace ?d' es). ratchet_limited (data (before c)) (found c)"
    by simp
  from Cons.prems step same_settings_fields(2) [OF set]
  have age: "komi_ratchet_age (data ?d') + int (length es) \<le> komi_ratchet_maxage (data ?d') + 1"
    by simp
  from Cons.IH [OF tail age]
  have ih: "komi_ratchet_age (data (value_run ?d' es))
        = komi_ratchet_age (data ?d') + int (length es)"
      "komi_ratchet (data (value_run ?d' es)) = komi_ratchet (data ?d')"
      "same_settings (data ?d') (data (value_run ?d' es))"
      "\<forall>c \<in> set (value_trace ?d' es).
         komi_by_color (returned c) (ev_color (found c)) = komi_ratchet (data ?d') - 1"
    by simp_all
  have trans: "same_settings (data d) (data (value_run ?d' es))"
    using set ih(3) by (rule same_settings_trans)
  from ih step trans show ?case by simp
qed

lemma red_records:
  assumes "red_zone (data d) e" and "0 < side_komi e"
  shows "komi_ratchet (data (snd (value_eval d e))) = side_komi e"
  using assms by (simp add: value_eval_red)

lemma trace_bound_le:
  assumes "komi_ratchet (data d) \<le> R"
    and "\<forall>c \<in> set (value_trace d es).
      \<not> (green_zone (data (before c)) (found c) \<and> ratchet_expires (data (before c)))"
    and "\<forall>c \<in> set (value_trace d es).
      red_zone (data (before c)) (found c) \<and> 0 < side_komi (found c)
        \<longrightarrow> side_komi (found c) \<le> R"
  shows "\<forall>c \<in> set (value_trace d es).
      komi_ratchet (data (before c)) \<le> R \<and>
      use_komi_ratchet (data (before c)) = use_komi_ratchet (data d) \<and>
      returned c = fst (value_eval (before c) (found c)) \<and>
      after c = snd (value_eval (before c) (found c))"
  using assms
proof (induction es arbitrary: d)
  case Nil
  then show ?case by simp
next
  case (Cons e es)
  let ?d' = "snd (value_eval d e)"
  from Cons.prems have live: "\<not> (green_zone (data d) e \<and> ratchet_expires (data d))"
    and lower: "red_zone (data d) e \<and> 0 < side_komi e \<longrightarrow> side_komi e \<le> R"
    by simp_all
  have bound: "komi_ratchet (data ?d') \<le> R"
  proof (cases "red_zone (data d) e \<and> 0 < side_komi e")
    case True
    with lower show ?thesis by (simp add: red_records)
  next
    case False
    with live Cons.prems(1) show ?thesis by (simp add: eval_keeps_bound)
  qed
  have use: "use_komi_ratchet (data ?d') = use_komi_ratchet (data d)"
    using value_eval_settings [of d e] by (rule same_settings_fields)
  from Cons.prems have tail1: "\<forall>c \<in> set (value_trace ?d' es).
      \<not> (green_zone (data (before c)) (found c) \<and> ratchet_expires (data (before c)))"
    and tail2: "\<forall>c \<in> set (value_trace ?d' es).
      red_zone (data (before c)) (found c) \<and> 0 < side_komi (found c)
        \<longrightarrow> side_komi (found c) \<le> R"
    by simp_all
  from Cons.IH [OF bound tail1 tail2] Cons.prems(1) use show ?case by simp
qed

subsection \<open>The ratchet\<close>

text \<open>
  C1, as the sources have it: the ratchet being enabled, let a call in the
  red zone find a positive compensation \<open>R\<close> in the frame of the side. The call records \<open>R\<close> as
  the bound of the ratchet. Take any calls after it, none of them a call in
  the green zone on a ratchet that its age has expired, none a call in the red
  zone that records a bound above \<open>R\<close>. Then the bound never exceeds \<open>R\<close>,
  every call in the green zone returns less than \<open>R\<close> in the frame of its
  side, and where the incremented compensation reaches the bound the call
  returns the bound minus 1 and adds 1 to the age. Without a recording call in
  the red zone among them the bound is \<open>R\<close> throughout.
\<close>

theorem ratchet_bounds_green_zone:
  assumes "use_komi_ratchet (data d0)"
    and "red_zone (data d0) e0" and "0 < side_komi e0"
    and "\<forall>c \<in> set (value_trace (snd (value_eval d0 e0)) es).
      \<not> (green_zone (data (before c)) (found c) \<and> ratchet_expires (data (before c)))"
    and "\<forall>c \<in> set (value_trace (snd (value_eval d0 e0)) es).
      red_zone (data (before c)) (found c) \<and> 0 < side_komi (found c)
        \<longrightarrow> side_komi (found c) \<le> side_komi e0"
  shows "komi_ratchet (data (snd (value_eval d0 e0))) = side_komi e0 \<and>
    (\<forall>c \<in> set (value_trace (snd (value_eval d0 e0)) es).
       komi_ratchet (data (before c)) \<le> side_komi e0 \<and>
       (green_zone (data (before c)) (found c) \<longrightarrow>
          komi_by_color (returned c) (ev_color (found c)) < side_komi e0 \<and>
          (komi_ratchet (data (before c))
             \<le> side_komi (found c) + real_of_int (eval_step (data (before c)) (found c)) \<longrightarrow>
           komi_by_color (returned c) (ev_color (found c)) = komi_ratchet (data (before c)) - 1 \<and>
           komi_ratchet_age (data (after c)) = komi_ratchet_age (data (before c)) + 1))) \<and>
    ((\<forall>c \<in> set (value_trace (snd (value_eval d0 e0)) es).
        \<not> (red_zone (data (before c)) (found c) \<and> 0 < side_komi (found c))) \<longrightarrow>
     (\<forall>c \<in> set (value_trace (snd (value_eval d0 e0)) es).
        komi_ratchet (data (before c)) = side_komi e0))"
proof -
  let ?d1 = "snd (value_eval d0 e0)"
  let ?R = "side_komi e0"
  have rec: "komi_ratchet (data ?d1) = ?R"
    using assms(2,3) by (rule red_records)
  have use1: "use_komi_ratchet (data ?d1)"
    using same_settings_fields(1) [OF value_eval_settings [of d0 e0]] assms(1) by simp
  from rec have le: "komi_ratchet (data ?d1) \<le> ?R" by simp
  note inv = trace_bound_le [OF le assms(4,5)]
  have main: "komi_ratchet (data (before c)) \<le> ?R \<and>
       (green_zone (data (before c)) (found c) \<longrightarrow>
          komi_by_color (returned c) (ev_color (found c)) < ?R \<and>
          (komi_ratchet (data (before c))
             \<le> side_komi (found c) + real_of_int (eval_step (data (before c)) (found c)) \<longrightarrow>
           komi_by_color (returned c) (ev_color (found c)) = komi_ratchet (data (before c)) - 1 \<and>
           komi_ratchet_age (data (after c)) = komi_ratchet_age (data (before c)) + 1))"
    if c: "c \<in> set (value_trace ?d1 es)" for c
  proof -
    from inv c have b: "komi_ratchet (data (before c)) \<le> ?R"
      and u: "use_komi_ratchet (data (before c))"
      and r: "returned c = fst (value_eval (before c) (found c))"
      and a: "after c = snd (value_eval (before c) (found c))"
      using use1 by auto
    show ?thesis
    proof (cases "green_zone (data (before c)) (found c)")
      case False
      with b show ?thesis by simp
    next
      case True
      with assms(4) c have live: "\<not> ratchet_expires (data (before c))" by auto
      from green_live(1) [OF True live u] b
      have "komi_by_color (returned c) (ev_color (found c)) < ?R" by (simp add: r)
      with green_live(2) [OF True live u] b True show ?thesis by (simp add: r a)
    qed
  qed
  have same: "\<forall>c \<in> set (value_trace ?d1 es). komi_ratchet (data (before c)) = ?R"
    if "\<forall>c \<in> set (value_trace ?d1 es).
        \<not> (red_zone (data (before c)) (found c) \<and> 0 < side_komi (found c))"
  proof -
    from that assms(4) have "\<forall>c \<in> set (value_trace ?d1 es).
        \<not> (red_zone (data (before c)) (found c) \<and> 0 < side_komi (found c)) \<and>
        \<not> (green_zone (data (before c)) (found c) \<and> ratchet_expires (data (before c)))"
      by blast
    from trace_keeps_bound [OF this] rec show ?thesis by simp
  qed
  from rec main same show ?thesis by blast
qed

lemma adaptive19_value_data:
  "data adaptive19_value = (adaptive_defaults board19)\<lparr>indicator := Komi_by_value\<rparr>"
  by (simp add: adaptive19_value_def)

lemma adaptive19_age1_data:
  "data adaptive19_age1 = (adaptive_defaults board19)
     \<lparr>indicator := Komi_by_value, komi_ratchet_maxage := 1, komi_ratchet := 4\<rparr>"
  by (simp add: adaptive19_age1_def)

lemmas scenario_zone_defs = red_zone_def green_zone_def trusted_def pov_value_def side_komi_def
  eval_step_def ratchet_expires_def ratchet_limited_def after_expiry_def komi_by_color_def
  TRUSTWORTHY_KOMI_PLAYOUTS_def adaptive_defaults_def losing_at_4_def winning_at_2_def
  winning_at_3_def zero_stats_def

text \<open>
  The spec's scenario: in the red zone at a compensation of 4 the ratchet
  records 4; the next call, in the green zone at a compensation of 2, would
  reach 4 and returns 3, and the ratchet is one step older.
\<close>

theorem ratchet_bounds_green_zone_witness:
  "use_komi_ratchet (data adaptive19_value) \<and>
   red_zone (data adaptive19_value) losing_at_4 \<and>
   side_komi losing_at_4 = 4 \<and>
   komi_ratchet (data (snd (value_eval adaptive19_value losing_at_4))) = 4 \<and>
   green_zone (data (snd (value_eval adaptive19_value losing_at_4))) winning_at_2 \<and>
   komi_by_color
     (fst (value_eval (snd (value_eval adaptive19_value losing_at_4)) winning_at_2)) S_BLACK = 3 \<and>
   komi_ratchet_age
     (data (snd (value_eval (snd (value_eval adaptive19_value losing_at_4)) winning_at_2))) = 1"
proof -
  let ?d0 = adaptive19_value
  let ?d1 = "snd (value_eval ?d0 losing_at_4)"
  have use: "use_komi_ratchet (data ?d0)"
    by (simp add: adaptive19_value_data adaptive_defaults_def)
  have red: "red_zone (data ?d0) losing_at_4"
    by (simp add: adaptive19_value_data scenario_zone_defs)
  have side: "side_komi losing_at_4 = 4"
    by (simp add: scenario_zone_defs)
  then have pos: "0 < side_komi losing_at_4" by simp
  have d1: "data ?d1 = (data ?d0)\<lparr>komi_ratchet := 4\<rparr>"
    using value_eval_red(2) [OF red] side by simp
  have green: "green_zone (data ?d1) winning_at_2"
    unfolding d1 by (simp add: adaptive19_value_data scenario_zone_defs)
  have live: "\<not> ratchet_expires (data ?d1)"
    unfolding d1 by (simp add: adaptive19_value_data scenario_zone_defs)
  have no_red: "\<not> red_zone (data ?d1) winning_at_2"
    unfolding d1 by (simp add: adaptive19_value_data scenario_zone_defs)
  have reach: "komi_ratchet (data ?d1)
      \<le> side_komi winning_at_2 + real_of_int (eval_step (data ?d1) winning_at_2)"
    unfolding d1 by (simp add: adaptive19_value_data scenario_zone_defs)
  have age: "komi_ratchet_age (data ?d1) = 0"
    unfolding d1 by (simp add: adaptive19_value_data adaptive_defaults_def)
  have color: "ev_color winning_at_2 = S_BLACK"
    by (simp add: winning_at_2_def)
  have h4: "\<forall>c \<in> set (value_trace ?d1 [winning_at_2]).
      \<not> (green_zone (data (before c)) (found c) \<and> ratchet_expires (data (before c)))"
    using live by simp
  have h5: "\<forall>c \<in> set (value_trace ?d1 [winning_at_2]).
      red_zone (data (before c)) (found c) \<and> 0 < side_komi (found c)
        \<longrightarrow> side_komi (found c) \<le> side_komi losing_at_4"
    using no_red by simp
  from ratchet_bounds_green_zone [OF use red pos h4 h5]
  have "komi_ratchet (data ?d1) = 4 \<and>
    komi_by_color (fst (value_eval ?d1 winning_at_2)) S_BLACK = 3 \<and>
    komi_ratchet_age (data (snd (value_eval ?d1 winning_at_2))) = 1"
    using green reach side age color by simp
  with use red side green show ?thesis by simp
qed

text \<open>
  C1, as the claim states it, fails where a later call in the red zone
  records a higher bound: the ratchet records 4, a call in the red zone at a
  compensation of 10 records 10, and the next call, in the green zone at 5
  on a ratchet that has not expired, returns 7, which is not below 4.
\<close>

theorem ratchet_bounds_green_zone_counterexample:
  "use_komi_ratchet (data adaptive19_value) \<and>
   red_zone (data adaptive19_value) losing_at_4 \<and>
   side_komi losing_at_4 = 4 \<and>
   komi_ratchet (data (value_run adaptive19_value [losing_at_4])) = 4 \<and>
   red_zone (data (value_run adaptive19_value [losing_at_4])) losing_at_10 \<and>
   komi_ratchet (data (value_run adaptive19_value [losing_at_4, losing_at_10])) = 10 \<and>
   green_zone (data (value_run adaptive19_value [losing_at_4, losing_at_10])) winning_at_5 \<and>
   \<not> ratchet_expires (data (value_run adaptive19_value [losing_at_4, losing_at_10])) \<and>
   komi_by_color
     (fst (value_eval (value_run adaptive19_value [losing_at_4, losing_at_10]) winning_at_5))
     (ev_color winning_at_5) = 7 \<and>
   \<not> komi_by_color
     (fst (value_eval (value_run adaptive19_value [losing_at_4, losing_at_10]) winning_at_5))
     (ev_color winning_at_5) < side_komi losing_at_4"
proof -
  let ?d0 = adaptive19_value
  let ?d1 = "snd (value_eval ?d0 losing_at_4)"
  let ?d2 = "snd (value_eval ?d1 losing_at_10)"
  have use: "use_komi_ratchet (data ?d0)"
    by (simp add: adaptive19_value_data adaptive_defaults_def)
  have red0: "red_zone (data ?d0) losing_at_4"
    by (simp add: adaptive19_value_data scenario_zone_defs)
  have side0: "side_komi losing_at_4 = 4"
    by (simp add: scenario_zone_defs)
  have d1: "data ?d1 = (data ?d0)\<lparr>komi_ratchet := 4\<rparr>"
    using value_eval_red(2) [OF red0] side0 by simp
  have red1: "red_zone (data ?d1) losing_at_10"
    unfolding d1 by (simp add: adaptive19_value_data scenario_zone_defs losing_at_10_def)
  have side1: "side_komi losing_at_10 = 10"
    by (simp add: side_komi_def komi_by_color_def losing_at_10_def)
  have d2: "data ?d2 = (data ?d0)\<lparr>komi_ratchet := 10\<rparr>"
    using value_eval_red(2) [OF red1] side1 by (simp add: d1)
  have green: "green_zone (data ?d2) winning_at_5"
    unfolding d2 by (simp add: adaptive19_value_data scenario_zone_defs winning_at_5_def)
  have live: "\<not> ratchet_expires (data ?d2)"
    unfolding d2 by (simp add: adaptive19_value_data scenario_zone_defs)
  have free: "\<not> ratchet_limited (data ?d2) winning_at_5"
    unfolding d2 by (simp add: adaptive19_value_data scenario_zone_defs winning_at_5_def)
  have num: "side_komi winning_at_5 + real_of_int (eval_step (data ?d2) winning_at_5) = 7"
    unfolding d2 by (simp add: adaptive19_value_data scenario_zone_defs winning_at_5_def)
  have ret: "komi_by_color (fst (value_eval ?d2 winning_at_5)) (ev_color winning_at_5) = 7"
    using value_eval_green(1) [OF green] free num by simp
  have b1: "komi_ratchet (data ?d1) = 4" by (simp add: d1)
  have b2: "komi_ratchet (data ?d2) = 10" by (simp add: d2)
  from use red0 side0 b1 red1 b2 green live ret show ?thesis by simp
qed

text \<open>
  C6, as the sources have it. Let the ratchet have a positive maximal age and
  the age 0. It survives \<open>komi_ratchet_maxage + 1\<close> successive calls that it
  limits: each of them returns the bound minus 1, and after them the bound is
  unchanged and the age is \<open>komi_ratchet_maxage + 1\<close>. The next call in the
  green zone finds the age above the maximal age: it sets the bound to 1000,
  and where the incremented compensation is below 1000 it returns that
  compensation and leaves the age at 0.
\<close>

theorem ratchet_expiry:
  assumes "0 < komi_ratchet_maxage (data d)" and "komi_ratchet_age (data d) = 0"
    and "\<forall>c \<in> set (value_trace d es). ratchet_limited (data (before c)) (found c)"
    and "int (length es) = komi_ratchet_maxage (data d) + 1"
    and "green_zone (data d) e"
  shows "(\<forall>c \<in> set (value_trace d es).
        komi_by_color (returned c) (ev_color (found c)) = komi_ratchet (data d) - 1) \<and>
    komi_ratchet (data (value_run d es)) = komi_ratchet (data d) \<and>
    komi_ratchet_age (data (value_run d es)) = komi_ratchet_maxage (data d) + 1 \<and>
    komi_ratchet (data (snd (value_eval (value_run d es) e))) = 1000 \<and>
    (side_komi e + real_of_int (eval_step (data d) e) < 1000 \<longrightarrow>
       fst (value_eval (value_run d es) e)
         = komi_by_color (side_komi e + real_of_int (eval_step (data d) e)) (ev_color e) \<and>
       komi_ratchet_age (data (snd (value_eval (value_run d es) e))) = 0)"
proof -
  let ?d' = "value_run d es"
  from assms(2,4)
  have len: "komi_ratchet_age (data d) + int (length es) \<le> komi_ratchet_maxage (data d) + 1"
    by simp
  from limited_run [OF assms(3) len] assms(2,4)
  have run: "komi_ratchet_age (data ?d') = komi_ratchet_maxage (data d) + 1"
      "komi_ratchet (data ?d') = komi_ratchet (data d)"
      "same_settings (data d) (data ?d')"
      "\<forall>c \<in> set (value_trace d es).
         komi_by_color (returned c) (ev_color (found c)) = komi_ratchet (data d) - 1"
    by simp_all
  from run(1) assms(1) same_settings_fields(2) [OF run(3)]
  have expired: "ratchet_expires (data ?d')"
    by (simp add: ratchet_expires_def)
  from assms(5) have green: "green_zone (data ?d') e"
    by (simp add: same_settings_zones(1) [OF run(3)])
  have step: "eval_step (data ?d') e = eval_step (data d) e"
    by (rule same_settings_zones(3) [OF run(3)])
  from green_expired [OF green expired] step run show ?thesis by simp
qed

text \<open>
  With a maximal age of 1 and the bound 4: two calls in the green zone at a
  compensation of 3 are limited to 3; the third returns 5.
\<close>

theorem ratchet_expiry_witness:
  "0 < komi_ratchet_maxage (data adaptive19_age1) \<and>
   komi_ratchet_age (data adaptive19_age1) = 0 \<and>
   int (length [winning_at_3, winning_at_3]) = komi_ratchet_maxage (data adaptive19_age1) + 1 \<and>
   green_zone (data adaptive19_age1) winning_at_3 \<and>
   komi_ratchet (data (value_run adaptive19_age1 [winning_at_3, winning_at_3])) = 4 \<and>
   komi_ratchet_age (data (value_run adaptive19_age1 [winning_at_3, winning_at_3])) = 2 \<and>
   fst (value_eval (value_run adaptive19_age1 [winning_at_3, winning_at_3]) winning_at_3) = 5 \<and>
   komi_ratchet
     (data (snd (value_eval (value_run adaptive19_age1 [winning_at_3, winning_at_3])
        winning_at_3))) = 1000"
proof -
  let ?d = adaptive19_age1
  let ?e = winning_at_3
  let ?d1 = "snd (value_eval ?d ?e)"
  have a1: "0 < komi_ratchet_maxage (data ?d)"
    and max: "komi_ratchet_maxage (data ?d) = 1"
    and a2: "komi_ratchet_age (data ?d) = 0"
    and bound: "komi_ratchet (data ?d) = 4"
    by (simp_all add: adaptive19_age1_data adaptive_defaults_def)
  have lim0: "ratchet_limited (data ?d) ?e"
    by (simp add: adaptive19_age1_data scenario_zone_defs)
  have green: "green_zone (data ?d) ?e"
    by (simp add: adaptive19_age1_data scenario_zone_defs)
  have live0: "\<not> ratchet_expires (data ?d)"
    by (simp add: adaptive19_age1_data scenario_zone_defs)
  have d1: "data ?d1 = (data ?d)\<lparr>komi_ratchet_age := 1\<rparr>"
    using value_eval_green(2) [OF green] lim0 live0 a2 by (simp add: after_expiry_def)
  have lim1: "ratchet_limited (data ?d1) ?e"
    unfolding d1 by (simp add: adaptive19_age1_data scenario_zone_defs)
  have a3: "\<forall>c \<in> set (value_trace ?d [?e, ?e]). ratchet_limited (data (before c)) (found c)"
    using lim0 lim1 by simp
  have a4: "int (length [?e, ?e]) = komi_ratchet_maxage (data ?d) + 1"
    by (simp add: max)
  have num: "side_komi ?e + real_of_int (eval_step (data ?d) ?e) = 5"
    and color: "ev_color ?e = S_BLACK"
    by (simp_all add: adaptive19_age1_data scenario_zone_defs)
  from ratchet_expiry [OF a1 a2 a3 a4 green] num color bound max
  have "komi_ratchet (data (value_run ?d [?e, ?e])) = 4 \<and>
    komi_ratchet_age (data (value_run ?d [?e, ?e])) = 2 \<and>
    fst (value_eval (value_run ?d [?e, ?e]) ?e) = 5 \<and>
    komi_ratchet (data (snd (value_eval (value_run ?d [?e, ?e]) ?e))) = 1000"
    by (simp add: komi_by_color_def)
  with a1 a2 a4 green show ?thesis by simp
qed

text \<open>
  C6, as the claim states it, fails with a maximal age of 1: after one call
  that the ratchet limits, the next call in the green zone still finds the
  bound 4, returns 3 and leaves the bound in place; the age is 2 after it.
\<close>

theorem ratchet_expiry_counterexample:
  "komi_ratchet_maxage (data adaptive19_age1) = 1 \<and>
   komi_ratchet_age (data adaptive19_age1) = 0 \<and>
   ratchet_limited (data adaptive19_age1) winning_at_3 \<and>
   green_zone (data (value_run adaptive19_age1 [winning_at_3])) winning_at_3 \<and>
   fst (value_eval (value_run adaptive19_age1 [winning_at_3]) winning_at_3) = 3 \<and>
   komi_ratchet (data (snd (value_eval (value_run adaptive19_age1 [winning_at_3]) winning_at_3)))
     = 4 \<and>
   komi_ratchet_age
     (data (snd (value_eval (value_run adaptive19_age1 [winning_at_3]) winning_at_3))) = 2"
proof -
  let ?d = adaptive19_age1
  let ?e = winning_at_3
  let ?d1 = "snd (value_eval ?d ?e)"
  have max: "komi_ratchet_maxage (data ?d) = 1"
    and age: "komi_ratchet_age (data ?d) = 0"
    by (simp_all add: adaptive19_age1_data adaptive_defaults_def)
  have lim0: "ratchet_limited (data ?d) ?e"
    by (simp add: adaptive19_age1_data scenario_zone_defs)
  have green0: "green_zone (data ?d) ?e"
    by (simp add: adaptive19_age1_data scenario_zone_defs)
  have live0: "\<not> ratchet_expires (data ?d)"
    by (simp add: adaptive19_age1_data scenario_zone_defs)
  have d1: "data ?d1 = (data ?d)\<lparr>komi_ratchet_age := 1\<rparr>"
    using value_eval_green(2) [OF green0] lim0 live0 age by (simp add: after_expiry_def)
  have green1: "green_zone (data ?d1) ?e"
    unfolding d1 by (simp add: adaptive19_age1_data scenario_zone_defs)
  have lim1: "ratchet_limited (data ?d1) ?e"
    unfolding d1 by (simp add: adaptive19_age1_data scenario_zone_defs)
  have live1: "\<not> ratchet_expires (data ?d1)"
    unfolding d1 by (simp add: adaptive19_age1_data scenario_zone_defs)
  have color: "ev_color ?e = S_BLACK"
    by (simp add: winning_at_3_def)
  from limited_live [OF lim1 live1] color
  have "fst (value_eval ?d1 ?e) = 3 \<and>
    komi_ratchet (data (snd (value_eval ?d1 ?e))) = 4 \<and>
    komi_ratchet_age (data (snd (value_eval ?d1 ?e))) = 2"
    by (simp add: d1 adaptive19_age1_data adaptive_defaults_def komi_by_color_def)
  with max age lim0 green1 show ?thesis by simp
qed

subsection \<open>Option strings\<close>

lemma parse_options_empty: "parse_options f [] s = Inr s"
  by (subst parse_options.simps) simp

lemma parse_options_token:
  "nxt \<noteq> [] \<Longrightarrow>
   parse_options f nxt s =
     (case f s (takeWhile (\<lambda>c. c \<noteq> CHR '':'') nxt) of
        Inl e \<Rightarrow> Inl e
      | Inr s' \<Rightarrow> parse_options f (drop 1 (dropWhile (\<lambda>c. c \<noteq> CHR '':'') nxt)) s')"
  by (subst parse_options.simps) simp

lemma option_tokens_empty: "option_tokens [] = []"
  by (subst option_tokens.simps) simp

lemma option_tokens_rest:
  "nxt \<noteq> [] \<Longrightarrow>
   option_tokens nxt =
     takeWhile (\<lambda>c. c \<noteq> CHR '':'') nxt
       # option_tokens (drop 1 (dropWhile (\<lambda>c. c \<noteq> CHR '':'') nxt))"
  by (subst option_tokens.simps) simp

text \<open>
  Where the body of the loop fails on every token that \<open>acc\<close> rejects, with an
  error that satisfies \<open>P\<close>, an option string with a rejected token ends in
  such an error.
\<close>

lemma parse_options_fails:
  assumes "\<forall>t \<in> set (option_tokens str). \<forall>s. case f s t of Inl e \<Rightarrow> P e | Inr s' \<Rightarrow> acc t"
    and "\<exists>t \<in> set (option_tokens str). \<not> acc t"
  shows "\<exists>e. parse_options f str s = Inl e \<and> P e"
  using assms
proof (induction f str s rule: parse_options.induct)
  case (1 f nxt s)
  show ?case
  proof (cases "nxt = []")
    case True
    with 1(3) show ?thesis by (simp add: option_tokens_empty)
  next
    case False
    let ?t = "takeWhile (\<lambda>c. c \<noteq> CHR '':'') nxt"
    let ?rest = "drop 1 (dropWhile (\<lambda>c. c \<noteq> CHR '':'') nxt)"
    note toks = option_tokens_rest [OF False]
    from 1(2) have head: "case f s ?t of Inl e \<Rightarrow> P e | Inr s' \<Rightarrow> acc ?t"
      by (simp add: toks)
    show ?thesis
    proof (cases "f s ?t")
      case (Inl e)
      with head False show ?thesis by (simp add: parse_options_token)
    next
      case (Inr s')
      with head have "acc ?t" by simp
      with 1(3) have bad: "\<exists>t \<in> set (option_tokens ?rest). \<not> acc t"
        by (auto simp add: toks)
      from 1(2) have all: "\<forall>t \<in> set (option_tokens ?rest). \<forall>s.
          case f s t of Inl e \<Rightarrow> P e | Inr s' \<Rightarrow> acc t"
        by (simp add: toks)
      from 1(1) [OF False Inr all bad] False Inr show ?thesis
        by (simp add: parse_options_token)
    qed
  qed
qed

text \<open>
  Both constructors against the spec's table: the LINEAR strategy reports an
  invalid argument for an option string with a token outside the table; so
  does the ADAPTIVE strategy, or an invalid indicator or adapter, as long as
  no token is the option \<^verbatim>\<open>indicator\<close> without a value.
\<close>

lemma linear_option_spec:
  "case linear_option atoi l t of
     Inl e \<Rightarrow> e = Invalid_argument (optname_of t)
   | Inr l' \<Rightarrow> spec_linear_option t"
  by (simp add: linear_option_def spec_linear_option_def Let_def)

lemma linear_rejects:
  assumes "\<exists>t \<in> set (option_tokens str). \<not> spec_linear_option t"
  shows "\<exists>n. uct_dynkomi_init_linear atoi (Some str) b = Inl (Invalid_argument n)"
proof -
  have "\<forall>t \<in> set (option_tokens str). \<forall>l.
      case linear_option atoi l t of
        Inl e \<Rightarrow> (\<exists>n. e = Invalid_argument n) | Inr l' \<Rightarrow> spec_linear_option t"
  proof (intro ballI allI)
    fix t l
    from linear_option_spec [where atoi = atoi and l = l and t = t]
    show "case linear_option atoi l t of
        Inl e \<Rightarrow> (\<exists>n. e = Invalid_argument n) | Inr l' \<Rightarrow> spec_linear_option t"
      by (cases "linear_option atoi l t") simp_all
  qed
  from parse_options_fails [OF this assms]
  obtain n where "parse_options (linear_option atoi) str
      \<lparr>handicap_value = 7, lin_moves = (if 19 \<le> board_size b - 2 then 200 else 0),
       rootbased = False\<rparr> = Inl (Invalid_argument n)"
    by blast
  then show ?thesis by (simp add: uct_dynkomi_init_linear_def Let_def)
qed

lemma adaptive_option_spec:
  assumes "\<not> bare_indicator t"
  shows "case adaptive_option atoi atof a t of
     Inl e \<Rightarrow> e \<noteq> Null_dereference
   | Inr a' \<Rightarrow> spec_adaptive_option t"
  using assms
  by (cases "optval_of t")
    (simp_all add: adaptive_option_def spec_adaptive_option_def bare_indicator_def Let_def)

lemma adaptive_rejects:
  assumes "\<exists>t \<in> set (option_tokens str). \<not> spec_adaptive_option t"
    and "\<forall>t \<in> set (option_tokens str). \<not> bare_indicator t"
  shows "\<exists>e. uct_dynkomi_init_adaptive atoi atof (Some str) b = Inl e \<and> e \<noteq> Null_dereference"
proof -
  from assms(2) have "\<forall>t \<in> set (option_tokens str). \<forall>a.
      case adaptive_option atoi atof a t of
        Inl e \<Rightarrow> e \<noteq> Null_dereference | Inr a' \<Rightarrow> spec_adaptive_option t"
    using adaptive_option_spec [where atoi = atoi and atof = atof] by blast
  from parse_options_fails [OF this assms(1)]
  obtain e where "parse_options (adaptive_option atoi atof) str (adaptive_defaults b) = Inl e"
    and "e \<noteq> Null_dereference"
    by blast
  then show ?thesis by (simp add: uct_dynkomi_init_adaptive_def Let_def)
qed

text \<open>
  The option \<^verbatim>\<open>adapter\<close> without a value is reported as an invalid argument,
  as is an unknown option of the LINEAR strategy.
\<close>

lemma adaptive_bare_adapter:
  "uct_dynkomi_init_adaptive atoi atof (Some ''adapter'') b = Inl (Invalid_argument ''adapter'')"
  by (simp add: uct_dynkomi_init_adaptive_def adaptive_option_def optname_of_def optval_of_def
      strcasecmp_is0_def c_tolower_def Let_def parse_options_token parse_options_empty)

lemma linear_unknown_option:
  "uct_dynkomi_init_linear atoi (Some ''komi'') b = Inl (Invalid_argument ''komi'')"
  by (simp add: uct_dynkomi_init_linear_def linear_option_def optname_of_def optval_of_def
      strcasecmp_is0_def c_tolower_def Let_def parse_options_token parse_options_empty)

text \<open>
  C8 fails on the sources for the option \<^verbatim>\<open>indicator\<close> of the ADAPTIVE
  strategy: given without a value, its branch passes the null \<^verbatim>\<open>optval\<close> to
  \<^verbatim>\<open>strcasecmp\<close> instead of reporting an invalid argument.
\<close>

theorem adaptive_bare_indicator:
  "uct_dynkomi_init_adaptive atoi atof (Some ''indicator'') b = Inl Null_dereference"
  by (simp add: uct_dynkomi_init_adaptive_def adaptive_option_def optname_of_def optval_of_def
      strcasecmp_is0_def c_tolower_def Let_def parse_options_token parse_options_empty)

end
